theory Spec2Isabelle
  imports Complex_Main "HOL-Library.Sublist" "HOL-Library.Log_Nat"
begin

section \<open>Python values\<close>

subsection \<open>Floats\<close>

text \<open>
  A Python float is an IEEE 754 binary64 value. A finite one is represented by the
  rational number it denotes (the sign of zero is not kept: it changes no comparison);
  the operations below round their exact result to the nearest binary64 value, ties to
  even, as the hardware does.
\<close>

datatype pyfloat = Finite rat | PosInf | NegInf | NaN

definition round_half_even :: "rat \<Rightarrow> int" where
  "round_half_even x =
     (let f = \<lfloor>x\<rfloor>; r = x - of_int f
      in if r < 1 / 2 then f else if 1 / 2 < r then f + 1 else if even f then f else f + 1)"

text \<open>The exponent \<open>e\<close> with \<open>2^e \<le> x < 2^(e+1)\<close>, for a positive \<open>x\<close>.\<close>

definition binade :: "rat \<Rightarrow> int" where
  "binade x =
     (let k = bitlen (fst (quotient_of x)) - bitlen (snd (quotient_of x))
      in if 2 powi k \<le> x then k else k - 1)"

text \<open>
  The spacing of binary64 values around \<open>x\<close>: 52 fraction bits below the leading bit,
  and the fixed spacing \<open>2^-1074\<close> of the subnormal range below \<open>2^-1022\<close>.
\<close>

definition ulp :: "rat \<Rightarrow> rat" where
  "ulp x = 2 powi (max (binade \<bar>x\<bar>) (- 1022) - 52)"

definition nearest_double :: "rat \<Rightarrow> rat" where
  "nearest_double x = (if x = 0 then 0 else of_int (round_half_even (x / ulp x)) * ulp x)"

definition to_double :: "rat \<Rightarrow> pyfloat" where
  "to_double x =
     (let y = nearest_double x
      in if 2 ^ 1024 \<le> y then PosInf else if y \<le> - (2 ^ 1024) then NegInf else Finite y)"

text \<open>\<^verbatim>\<open>a - b\<close> on floats.\<close>

fun float_sub :: "pyfloat \<Rightarrow> pyfloat \<Rightarrow> pyfloat" where
  "float_sub NaN _ = NaN"
| "float_sub _ NaN = NaN"
| "float_sub (Finite a) (Finite b) = to_double (a - b)"
| "float_sub (Finite a) PosInf = NegInf"
| "float_sub (Finite a) NegInf = PosInf"
| "float_sub PosInf PosInf = NaN"
| "float_sub PosInf _ = PosInf"
| "float_sub NegInf NegInf = NaN"
| "float_sub NegInf _ = NegInf"

text \<open>\<^verbatim>\<open>a <= b\<close> on floats: false as soon as one side is NaN.\<close>

fun float_le :: "pyfloat \<Rightarrow> pyfloat \<Rightarrow> bool" where
  "float_le NaN _ = False"
| "float_le _ NaN = False"
| "float_le NegInf _ = True"
| "float_le _ PosInf = True"
| "float_le (Finite a) (Finite b) = (a \<le> b)"
| "float_le (Finite a) NegInf = False"
| "float_le PosInf _ = False"

subsection \<open>Exceptions\<close>

datatype exn =
    AttributeError string
  | IndexError
  | OverflowError
  | StoreError string

text \<open>\<^verbatim>\<open>str(e)\<close>\<close>

fun exn_str :: "exn \<Rightarrow> string" where
  "exn_str (AttributeError m) = m"
| "exn_str IndexError = ''list index out of range''"
| "exn_str OverflowError = ''rounded value too large to represent''"
| "exn_str (StoreError m) = m"

text \<open>
  \<^verbatim>\<open>round(x, ndigits)\<close> on a float, for \<open>ndigits \<ge> 0\<close>: infinities and NaN round to
  themselves; a finite value is rounded, half to even on its exact value, to a decimal
  with \<open>ndigits\<close> places, which is then converted back to the nearest float. Beyond 323
  places every float rounds to itself.
\<close>

definition round_decimal :: "rat \<Rightarrow> nat \<Rightarrow> rat" where
  "round_decimal x ndigits = of_int (round_half_even (x * 10 ^ ndigits)) / 10 ^ ndigits"

fun py_round :: "pyfloat \<Rightarrow> nat \<Rightarrow> exn + pyfloat" where
  "py_round (Finite x) ndigits =
     (if 323 < ndigits then Inr (Finite x)
      else (case to_double (round_decimal x ndigits) of
              Finite y \<Rightarrow> Inr (Finite y)
            | _ \<Rightarrow> Inl OverflowError))"
| "py_round x ndigits = Inr x"

subsection \<open>JSON values\<close>

text \<open>
  What \<^verbatim>\<open>json.loads\<close> returns: \<^verbatim>\<open>None\<close>, a bool, an int, a float, a str, a list or
  a dict with string keys. A dict is an association list in insertion order; a lookup
  takes the first entry of a key. Strings are byte sequences in UTF-8.
\<close>

datatype json =
    JNull
  | JBool bool
  | JInt int
  | JFloat pyfloat
  | JStr string
  | JList "json list"
  | JObj "(string \<times> json) list"

type_synonym pydict = "(string \<times> json) list"

text \<open>\<^verbatim>\<open>d.get(k, default)\<close>\<close>

definition dict_get :: "pydict \<Rightarrow> string \<Rightarrow> json \<Rightarrow> json" where
  "dict_get d k dflt = (case map_of d k of Some v \<Rightarrow> v | None \<Rightarrow> dflt)"

text \<open>Truth value of an object, as \<^verbatim>\<open>if v\<close>, \<^verbatim>\<open>not v\<close> and \<^verbatim>\<open>a or b\<close> test it.\<close>

fun truthy :: "json \<Rightarrow> bool" where
  "truthy JNull = False"
| "truthy (JBool b) = b"
| "truthy (JInt i) = (i \<noteq> 0)"
| "truthy (JFloat (Finite x)) = (x \<noteq> 0)"
| "truthy (JFloat _) = True"
| "truthy (JStr s) = (s \<noteq> [])"
| "truthy (JList xs) = (xs \<noteq> [])"
| "truthy (JObj kvs) = (kvs \<noteq> [])"

text \<open>\<^verbatim>\<open>a or b\<close>\<close>

definition py_or :: "json \<Rightarrow> json \<Rightarrow> json" where
  "py_or a b = (if truthy a then a else b)"

fun is_str :: "json \<Rightarrow> bool" where
  "is_str (JStr s) = True"
| "is_str _ = False"

subsection \<open>Strings\<close>

definition nl :: char where
  "nl = CHR 0x0A"

text \<open>\<^verbatim>\<open>str(n)\<close> for an int.\<close>

fun str_nat :: "nat \<Rightarrow> string" where
  "str_nat n =
     (if n < 10 then [char_of (48 + n)] else str_nat (n div 10) @ [char_of (48 + n mod 10)])"

definition str_int :: "int \<Rightarrow> string" where
  "str_int i = (if i < 0 then CHR ''-'' # str_nat (nat (- i)) else str_nat (nat i))"

text \<open>\<^verbatim>\<open>sep.join(xs)\<close>\<close>

fun py_join :: "string \<Rightarrow> string list \<Rightarrow> string" where
  "py_join sep [] = []"
| "py_join sep [x] = x"
| "py_join sep (x # y # ys) = x @ sep @ py_join sep (y # ys)"

text \<open>\<^verbatim>\<open>s.split(c)\<close> for a separator of one character: never an empty list.\<close>

fun py_split :: "char \<Rightarrow> string \<Rightarrow> string list" where
  "py_split c [] = [[]]"
| "py_split c (x # xs) =
     (if x = c then [] # py_split c xs
      else (case py_split c xs of l # ls \<Rightarrow> (x # l) # ls | [] \<Rightarrow> [[x]]))"

text \<open>\<^verbatim>\<open>s.replace(old, new)\<close>: every occurrence, left to right, without overlap.\<close>

function py_replace :: "string \<Rightarrow> string \<Rightarrow> string \<Rightarrow> string" where
  "py_replace old new s =
     (if old = [] then new @ concat (map (\<lambda>c. c # new) s)
      else if s = [] then []
      else if prefix old s then new @ py_replace old new (drop (length old) s)
      else hd s # py_replace old new (tl s))"
  by pat_completeness auto
termination
  by (relation "measure (\<lambda>(old, new, s). length s)") auto

text \<open>
  The characters that \<^verbatim>\<open>str.strip()\<close> removes, in UTF-8: U+0009 to U+000D, U+001C to
  U+0020, U+0085, U+00A0, U+1680, U+2000 to U+200A, U+2028, U+2029, U+202F, U+205F and
  U+3000.
\<close>

definition whitespace :: "string list" where
  "whitespace =
     [[CHR 0x09], [CHR 0x0A], [CHR 0x0B], [CHR 0x0C], [CHR 0x0D],
      [CHR 0x1C], [CHR 0x1D], [CHR 0x1E], [CHR 0x1F], [CHR 0x20],
      [CHR 0xC2, CHR 0x85], [CHR 0xC2, CHR 0xA0],
      [CHR 0xE1, CHR 0x9A, CHR 0x80],
      [CHR 0xE2, CHR 0x80, CHR 0x80], [CHR 0xE2, CHR 0x80, CHR 0x81],
      [CHR 0xE2, CHR 0x80, CHR 0x82], [CHR 0xE2, CHR 0x80, CHR 0x83],
      [CHR 0xE2, CHR 0x80, CHR 0x84], [CHR 0xE2, CHR 0x80, CHR 0x85],
      [CHR 0xE2, CHR 0x80, CHR 0x86], [CHR 0xE2, CHR 0x80, CHR 0x87],
      [CHR 0xE2, CHR 0x80, CHR 0x88], [CHR 0xE2, CHR 0x80, CHR 0x89],
      [CHR 0xE2, CHR 0x80, CHR 0x8A], [CHR 0xE2, CHR 0x80, CHR 0xA8],
      [CHR 0xE2, CHR 0x80, CHR 0xA9], [CHR 0xE2, CHR 0x80, CHR 0xAF],
      [CHR 0xE2, CHR 0x81, CHR 0x9F],
      [CHR 0xE3, CHR 0x80, CHR 0x80]]"

text \<open>The length of the first of the sequences \<open>ws\<close> that \<open>s\<close> starts with, 0 if none.\<close>

definition lead_len :: "string list \<Rightarrow> string \<Rightarrow> nat" where
  "lead_len ws s = (case find (\<lambda>w. prefix w s) ws of Some w \<Rightarrow> length w | None \<Rightarrow> 0)"

function strip_leading :: "string list \<Rightarrow> string \<Rightarrow> string" where
  "strip_leading ws s =
     (if lead_len ws s = 0 then s else strip_leading ws (drop (lead_len ws s) s))"
  by pat_completeness auto
termination
proof (relation "measure (\<lambda>(ws, s). length s)")
  show "wf (measure (\<lambda>(ws, s). length s))" by simp
next
  fix ws :: "string list" and s :: string
  assume n: "lead_len ws s \<noteq> 0"
  then obtain w where "find (\<lambda>w. prefix w s) ws = Some w" and "length w = lead_len ws s"
    by (auto simp: lead_len_def split: option.splits)
  then have "prefix w s" and "w \<noteq> []"
    using n by (auto simp: find_Some_iff)
  then have "s \<noteq> []" by auto
  with n show "((ws, drop (lead_len ws s) s), (ws, s)) \<in> measure (\<lambda>(ws, s). length s)"
    by simp
qed

definition py_lstrip :: "string \<Rightarrow> string" where
  "py_lstrip s = strip_leading whitespace s"

definition py_rstrip :: "string \<Rightarrow> string" where
  "py_rstrip s = rev (strip_leading (map rev whitespace) (rev s))"

text \<open>\<^verbatim>\<open>s.strip()\<close>\<close>

definition py_strip :: "string \<Rightarrow> string" where
  "py_strip s = py_rstrip (py_lstrip s)"

section \<open>The collaborators\<close>

text \<open>
  The vector store's collection, the clock, the UUID generator, the JSON parser and
  Python's rendering of floats and containers are outside the program: each call of
  the program sees them through an environment. A store call either raises or returns.
\<close>

record add_args =
  add_documents :: "string list"
  add_metadatas :: "pydict list"
  add_ids :: "json list"

record query_args =
  query_texts :: "string list"
  n_results :: int
  q_where :: pydict

text \<open>The parallel arrays of a query result, one row per query text.\<close>

record query_result =
  ids :: "string list list"
  documents :: "string list list"
  metadatas :: "pydict list list"
  distances :: "pyfloat list list"

record env =
  json_loads :: "string \<Rightarrow> json option"
  str_other :: "json \<Rightarrow> string"
  uuid4_str :: string
  now_isoformat :: string
  collection_add :: "add_args \<Rightarrow> exn option"
  collection_query :: "query_args \<Rightarrow> exn + query_result"

text \<open>
  \<^verbatim>\<open>str(v)\<close>, and so \<^verbatim>\<open>{v}\<close> in an f-string: a str is itself, \<^verbatim>\<open>None\<close>, bools and ints
  are written out, floats, lists and dicts are rendered by the environment.
\<close>

definition py_str :: "env \<Rightarrow> json \<Rightarrow> string" where
  "py_str e v =
     (case v of
        JStr s \<Rightarrow> s
      | JNull \<Rightarrow> ''None''
      | JBool b \<Rightarrow> (if b then ''True'' else ''False'')
      | JInt i \<Rightarrow> str_int i
      | _ \<Rightarrow> str_other e v)"

text \<open>What the program does to the outside, in order.\<close>

datatype event =
    LogInfo string
  | LogError string
  | CollectionAdd add_args
  | CollectionQuery query_args

text \<open>\<^verbatim>\<open>xs[i]\<close> for \<open>i \<ge> 0\<close>\<close>

definition py_index :: "'a list \<Rightarrow> nat \<Rightarrow> exn + 'a" where
  "py_index xs i = (if i < length xs then Inr (xs ! i) else Inl IndexError)"

section \<open>JIRAKnowledgeBase\<close>

subsection \<open>\<^verbatim>\<open>_create_searchable_document\<close>\<close>

text \<open>
  The value of a classification field of the document, an expression that the source
  writes out for each of the three fields: the \<open>name\<close> of the dict under \<open>field\<close> when
  there is a dict there, else the value under \<open>alias\<close>.
\<close>

definition name_or_alias :: "pydict \<Rightarrow> string \<Rightarrow> string \<Rightarrow> json" where
  "name_or_alias ticket_data field alias =
     (case map_of ticket_data field of
        Some (JObj d) \<Rightarrow> dict_get d ''name'' (JStr [])
      | _ \<Rightarrow> dict_get ticket_data alias (JStr []))"

definition create_searchable_document :: "env \<Rightarrow> pydict \<Rightarrow> string" where
  "create_searchable_document e ticket_data =
     (let key = dict_get ticket_data ''key'' (JStr []);
          summary = dict_get ticket_data ''summary'' (JStr []);
          description = dict_get ticket_data ''description'' (JStr []);
          issue_type = name_or_alias ticket_data ''issuetype'' ''issue_type'';
          status = name_or_alias ticket_data ''status'' ''status'';
          priority = name_or_alias ticket_data ''priority'' ''priority'';
          document =
            ''Ticket: '' @ py_str e key @ [nl] @
            ''Type: '' @ py_str e issue_type @ [nl] @
            ''Priority: '' @ py_str e priority @ [nl] @
            ''Status: '' @ py_str e status @ [nl] @
            ''Summary: '' @ py_str e summary @ [nl] @
            ''Description: '' @ py_str e description
      in py_strip document)"

subsection \<open>\<^verbatim>\<open>_extract_metadata\<close>\<close>

text \<open>The optional argument \<open>subkey\<close> is \<open>None\<close> when it is left out.\<close>

definition safe_extract :: "env \<Rightarrow> pydict \<Rightarrow> string \<Rightarrow> string option \<Rightarrow> json" where
  "safe_extract e data key subkey =
     (let v = dict_get data key (JObj [])
      in case (v, subkey) of
           (JObj d, Some sk) \<Rightarrow>
             (if sk \<noteq> [] then dict_get d sk (JStr [])
              else if truthy v then JStr (py_str e v) else JStr [])
         | (JStr s, _) \<Rightarrow> JStr s
         | _ \<Rightarrow> (if truthy v then JStr (py_str e v) else JStr []))"

text \<open>The dict literal \<^verbatim>\<open>metadata\<close>, before the empty values are removed.\<close>

definition metadata_fields :: "env \<Rightarrow> pydict \<Rightarrow> pydict" where
  "metadata_fields e ticket_data =
       [(''key'', dict_get ticket_data ''key'' (JStr [])),
         (''issue_type'',
            py_or (safe_extract e ticket_data ''issuetype'' (Some ''name''))
                  (dict_get ticket_data ''issue_type'' (JStr []))),
         (''priority'',
            py_or (safe_extract e ticket_data ''priority'' (Some ''name''))
                  (dict_get ticket_data ''priority'' (JStr []))),
         (''status'',
            py_or (safe_extract e ticket_data ''status'' (Some ''name''))
                  (dict_get ticket_data ''status'' (JStr []))),
         (''assignee'',
            py_or (safe_extract e ticket_data ''assignee'' (Some ''displayName''))
                  (dict_get ticket_data ''assignee'' (JStr []))),
         (''reporter'',
            py_or (safe_extract e ticket_data ''reporter'' (Some ''displayName''))
                  (dict_get ticket_data ''reporter'' (JStr []))),
         (''project'',
            py_or (safe_extract e ticket_data ''project'' (Some ''key''))
                  (dict_get ticket_data ''project'' (JStr []))),
         (''created'', dict_get ticket_data ''created'' (JStr [])),
         (''indexed_at'', JStr (now_isoformat e))]"

definition extract_metadata :: "env \<Rightarrow> pydict \<Rightarrow> pydict" where
  "extract_metadata e ticket_data =
     (let metadata = metadata_fields e ticket_data
      in filter (\<lambda>(k, v). truthy v) metadata)"

subsection \<open>\<^verbatim>\<open>add_ticket\<close>\<close>

text \<open>
  The result is the identifier, or the exception of the store, raised again after it is
  logged.
\<close>

definition add_ticket :: "env \<Rightarrow> pydict \<Rightarrow> event list \<times> (exn + json)" where
  "add_ticket e ticket_data =
     (let ticket_id = dict_get ticket_data ''key'' (JStr (''TICKET-'' @ take 8 (uuid4_str e)));
          document = create_searchable_document e ticket_data;
          metadata = extract_metadata e ticket_data;
          args = \<lparr>add_documents = [document], add_metadatas = [metadata], add_ids = [ticket_id]\<rparr>
      in case collection_add e args of
           None \<Rightarrow>
             ([CollectionAdd args,
               LogInfo (''Added ticket '' @ py_str e ticket_id @ '' to knowledge base'')],
              Inr ticket_id)
         | Some ex \<Rightarrow>
             ([CollectionAdd args,
               LogError (''Failed to add ticket '' @ py_str e ticket_id @ '': '' @ exn_str ex)],
              Inl ex))"

subsection \<open>\<^verbatim>\<open>search_tickets\<close>\<close>

record search_result =
  ticket_id :: string
  content :: string
  metadata :: pydict
  relevance_score :: pyfloat

text \<open>
  Sequencing of two steps of which the first may raise: the exception propagates.
\<close>

definition and_then :: "exn + 'a \<Rightarrow> ('a \<Rightarrow> exn + 'b) \<Rightarrow> exn + 'b" where
  "and_then m f = (case m of Inl ex \<Rightarrow> Inl ex | Inr x \<Rightarrow> f x)"

text \<open>One turn of the loop over \<^verbatim>\<open>enumerate(results['ids'][0])\<close>.\<close>

definition format_result :: "query_result \<Rightarrow> nat \<Rightarrow> string \<Rightarrow> exn + search_result" where
  "format_result results i doc_id =
     and_then (py_index (documents results) 0) (\<lambda>docs.
     and_then (py_index docs i) (\<lambda>doc.
     and_then (py_index (metadatas results) 0) (\<lambda>metas.
     and_then (py_index metas i) (\<lambda>meta.
     and_then (py_index (distances results) 0) (\<lambda>ds.
     and_then (py_index ds i) (\<lambda>distance.
     and_then (py_round (float_sub (Finite 1) distance) 3) (\<lambda>score.
       Inr \<lparr>ticket_id = doc_id, content = doc, metadata = meta,
            relevance_score = score\<rparr>)))))))"

fun format_results :: "query_result \<Rightarrow> nat \<Rightarrow> string list \<Rightarrow> exn + search_result list" where
  "format_results results i [] = Inr []"
| "format_results results i (doc_id # rest) =
     and_then (format_result results i doc_id) (\<lambda>r.
     and_then (format_results results (Suc i) rest) (\<lambda>rs.
       Inr (r # rs)))"

text \<open>The arguments of the one call of \<^verbatim>\<open>collection.query\<close>.\<close>

definition search_query_args :: "string \<Rightarrow> int \<Rightarrow> pydict option \<Rightarrow> query_args" where
  "search_query_args query n filters =
     \<lparr>query_texts = [query],
      n_results = min n 20,
      q_where = (case filters of None \<Rightarrow> [] | Some f \<Rightarrow> (if f \<noteq> [] then f else []))\<rparr>"

definition search_tickets ::
  "env \<Rightarrow> string \<Rightarrow> int \<Rightarrow> pydict option \<Rightarrow> event list \<times> search_result list" where
  "search_tickets e query n filters =
     (let args = search_query_args query n filters
      in case collection_query e args of
           Inl ex \<Rightarrow>
             ([CollectionQuery args, LogError (''Search failed: '' @ exn_str ex)], [])
         | Inr results \<Rightarrow>
             (case and_then (py_index (ids results) 0) (format_results results 0) of
                Inl ex \<Rightarrow>
                  ([CollectionQuery args, LogError (''Search failed: '' @ exn_str ex)], [])
              | Inr formatted_results \<Rightarrow> ([CollectionQuery args], formatted_results)))"

section \<open>The tool functions\<close>

text \<open>The dicts that the tools return are association lists in the order of the literal.\<close>

definition error_result :: "string \<Rightarrow> pydict" where
  "error_result msg = [(''status'', JStr ''error''), (''error_message'', JStr msg)]"

subsection \<open>\<^verbatim>\<open>add_jira_ticket\<close>\<close>

fun type_name :: "json \<Rightarrow> string" where
  "type_name JNull = ''NoneType''"
| "type_name (JBool b) = ''bool''"
| "type_name (JInt i) = ''int''"
| "type_name (JFloat x) = ''float''"
| "type_name (JStr s) = ''str''"
| "type_name (JList xs) = ''list''"
| "type_name (JObj kvs) = ''dict''"

text \<open>What \<^verbatim>\<open>v.get\<close> raises on a value that is no dict.\<close>

definition no_get :: "json \<Rightarrow> exn" where
  "no_get v =
     AttributeError ([CHR 0x27] @ type_name v @ [CHR 0x27] @ '' object has no attribute ''
                     @ [CHR 0x27] @ ''get'' @ [CHR 0x27])"

definition add_jira_ticket :: "env \<Rightarrow> string \<Rightarrow> event list \<times> pydict" where
  "add_jira_ticket e ticket_json =
     (case json_loads e ticket_json of
        None \<Rightarrow> ([], error_result ''Invalid JSON format provided'')
      | Some (JObj ticket_data) \<Rightarrow>
          (if \<not> truthy (dict_get ticket_data ''key'' JNull)
              \<and> \<not> truthy (dict_get ticket_data ''summary'' JNull)
           then ([], error_result ''Ticket must have either 'key' or 'summary' field'')
           else (case add_ticket e ticket_data of
                   (evs, Inr tid) \<Rightarrow>
                     (evs,
                      [(''status'', JStr ''success''),
                       (''result'',
                          JStr (''Successfully added ticket '' @ py_str e tid
                                @ '' to knowledge base'')),
                       (''ticket_id'', tid)])
                 | (evs, Inl ex) \<Rightarrow>
                     (evs, error_result (''Failed to add ticket: '' @ exn_str ex))))
      | Some v \<Rightarrow> ([], error_result (''Failed to add ticket: '' @ exn_str (no_get v))))"

subsection \<open>\<^verbatim>\<open>search_jira_tickets\<close>\<close>

text \<open>The bytes that open each ticket's entry of the digest, as the source file has them.\<close>

definition ticket_mark :: string where
  "ticket_mark =
     [CHR 0xEF, CHR 0xA3, CHR 0xBF, CHR 0xC3, CHR 0xBC, CHR 0xC3, CHR 0xA9, CHR 0xC2, CHR 0xB4]"

record ticket_info =
  ti_ticket_id :: string
  ti_relevance_score :: pyfloat
  ti_summary :: string
  ti_type :: json
  ti_priority :: json
  ti_status :: json
  ti_assignee :: json

definition format_ticket :: "search_result \<Rightarrow> ticket_info" where
  "format_ticket result =
     \<lparr>ti_ticket_id = ticket_id result,
      ti_relevance_score = relevance_score result,
      ti_summary = py_replace ''Ticket: '' [] (hd (py_split nl (content result))),
      ti_type = dict_get (metadata result) ''issue_type'' (JStr ''Unknown''),
      ti_priority = dict_get (metadata result) ''priority'' (JStr ''Unknown''),
      ti_status = dict_get (metadata result) ''status'' (JStr ''Unknown''),
      ti_assignee = dict_get (metadata result) ''assignee'' (JStr ''Unassigned'')\<rparr>"

definition ticket_info_dict :: "ticket_info \<Rightarrow> json" where
  "ticket_info_dict t =
     JObj [(''ticket_id'', JStr (ti_ticket_id t)),
           (''relevance_score'', JFloat (ti_relevance_score t)),
           (''summary'', JStr (ti_summary t)),
           (''type'', ti_type t),
           (''priority'', ti_priority t),
           (''status'', ti_status t),
           (''assignee'', ti_assignee t)]"

definition ticket_digest :: "env \<Rightarrow> ticket_info \<Rightarrow> string" where
  "ticket_digest e t =
     ticket_mark @ '' **'' @ ti_ticket_id t @ ''** (Relevance: ''
       @ py_str e (JFloat (ti_relevance_score t)) @ '')'' @ [nl]
     @ ''   Type: '' @ py_str e (ti_type t) @ '' | Priority: '' @ py_str e (ti_priority t)
       @ '' | Status: '' @ py_str e (ti_status t) @ [nl]
     @ ''   Assignee: '' @ py_str e (ti_assignee t) @ [nl]
     @ ''   '' @ ti_summary t @ [nl, nl]"

definition search_jira_tickets :: "env \<Rightarrow> string \<Rightarrow> int \<Rightarrow> event list \<times> pydict" where
  "search_jira_tickets e query limit =
     (let limit' = min (max 1 limit) 20;
          (evs, results) = search_tickets e query limit' None
      in if results = []
         then (evs,
               [(''status'', JStr ''success''),
                (''result'', JStr ''No tickets found matching your query.''),
                (''total_found'', JInt 0),
                (''tickets'', JList [])])
         else (let formatted_tickets = map format_ticket results;
                   summary =
                     ''Found '' @ str_int (int (length results)) @ '' relevant tickets:''
                     @ [nl, nl] @ concat (map (ticket_digest e) formatted_tickets)
               in (evs,
                   [(''status'', JStr ''success''),
                    (''result'', JStr summary),
                    (''total_found'', JInt (int (length results))),
                    (''tickets'', JList (map ticket_info_dict formatted_tickets))])))"

subsection \<open>\<^verbatim>\<open>filter_jira_tickets\<close>\<close>

definition build_filters :: "string \<Rightarrow> string \<Rightarrow> string \<Rightarrow> string \<Rightarrow> pydict" where
  "build_filters issue_type priority status assignee =
     (if issue_type \<noteq> [] then [(''issue_type'', JStr issue_type)] else [])
     @ (if priority \<noteq> [] then [(''priority'', JStr priority)] else [])
     @ (if status \<noteq> [] then [(''status'', JStr status)] else [])
     @ (if assignee \<noteq> [] then [(''assignee'', JStr assignee)] else [])"

definition filter_desc :: "env \<Rightarrow> pydict \<Rightarrow> string" where
  "filter_desc e filters = py_join '', '' (map (\<lambda>(k, v). k @ ''='' @ py_str e v) filters)"

definition filtered_digest :: "env \<Rightarrow> search_result \<Rightarrow> string" where
  "filtered_digest e ticket =
     ticket_mark @ '' **'' @ ticket_id ticket @ ''**'' @ [nl]
     @ ''   Type: '' @ py_str e (dict_get (metadata ticket) ''issue_type'' (JStr ''Unknown''))
       @ [nl]
     @ ''   Priority: '' @ py_str e (dict_get (metadata ticket) ''priority'' (JStr ''Unknown''))
       @ [nl]
     @ ''   Status: '' @ py_str e (dict_get (metadata ticket) ''status'' (JStr ''Unknown''))
       @ [nl]
     @ ''   Assignee: ''
       @ py_str e (dict_get (metadata ticket) ''assignee'' (JStr ''Unassigned'')) @ [nl, nl]"

definition filter_jira_tickets ::
  "env \<Rightarrow> string \<Rightarrow> string \<Rightarrow> string \<Rightarrow> string \<Rightarrow> event list \<times> pydict" where
  "filter_jira_tickets e issue_type priority status assignee =
     (let filters = build_filters issue_type priority status assignee
      in if filters = []
         then ([], error_result ''At least one filter criteria must be provided'')
         else (let (evs, results) = search_tickets e [] 20 (Some filters)
               in if results = []
                  then (evs,
                        [(''status'', JStr ''success''),
                         (''result'',
                            JStr (''No tickets found matching filters: ''
                                  @ filter_desc e filters)),
                         (''total_found'', JInt 0)])
                  else (evs,
                        [(''status'', JStr ''success''),
                         (''result'',
                            JStr (''Found '' @ str_int (int (length results))
                                  @ '' tickets matching filters ('' @ filter_desc e filters
                                  @ ''):'' @ [nl, nl]
                                  @ concat (map (filtered_digest e) results))),
                         (''total_found'', JInt (int (length results)))])))"

section \<open>A sample environment\<close>

text \<open>
  An environment to run the model on concrete tickets: the store accepts every add and
  answers every query with no row, the parser rejects every text. Floats, lists and
  dicts are rendered as a placeholder naming their type.
\<close>

definition sample_env :: env where
  "sample_env =
     \<lparr>json_loads = (\<lambda>s. None),
      str_other = (\<lambda>v. ''<'' @ type_name v @ ''>''),
      uuid4_str = ''3f2b8c1a-9d4e-4f6a-8b7c-1a2b3c4d5e6f'',
      now_isoformat = ''2024-01-15T10:30:00.000000'',
      collection_add = (\<lambda>a. None),
      collection_query =
        (\<lambda>q. Inr \<lparr>ids = [[]], documents = [[]], metadatas = [[]], distances = [[]]\<rparr>)\<rparr>"

text \<open>The same environment with a store that answers every query with \<open>r\<close>.\<close>

definition answering :: "env \<Rightarrow> exn + query_result \<Rightarrow> env" where
  "answering e r = e\<lparr>collection_query := (\<lambda>q. r)\<rparr>"

text \<open>
  The query result that holds one row, the record that \<^const>\<open>add_ticket\<close> writes for
  \<open>ticket_data\<close> under the identifier \<open>doc_id\<close>, at distance \<open>d\<close>.
\<close>

definition stored_row :: "env \<Rightarrow> pydict \<Rightarrow> string \<Rightarrow> pyfloat \<Rightarrow> query_result" where
  "stored_row e ticket_data doc_id d =
     \<lparr>ids = [[doc_id]],
      documents = [[create_searchable_document e ticket_data]],
      metadatas = [[extract_metadata e ticket_data]],
      distances = [[d]]\<rparr>"

text \<open>The same environment with a parser that reads every text as the value \<open>v\<close>.\<close>

definition parsing :: "env \<Rightarrow> json \<Rightarrow> env" where
  "parsing e v = e\<lparr>json_loads := (\<lambda>s. Some v)\<rparr>"

section \<open>Rounding, as its specification\<close>

text \<open>
  What it means that \<open>z\<close> is \<open>x\<close> rounded to the nearest float: \<open>z\<close> is a multiple of
  the spacing of the floats around \<open>x\<close>, no further from \<open>x\<close> than half that spacing,
  and an even multiple when it is exactly half way.
\<close>

definition nearest_float :: "rat \<Rightarrow> rat \<Rightarrow> bool" where
  "nearest_float x z \<longleftrightarrow>
     of_int \<lfloor>z / ulp x\<rfloor> = z / ulp x
     \<and> \<bar>z - x\<bar> \<le> ulp x / 2
     \<and> (\<bar>z - x\<bar> = ulp x / 2 \<longrightarrow> even \<lfloor>z / ulp x\<rfloor>)"

text \<open>
  What it means that \<open>r\<close> is \<open>y\<close> rounded to 3 decimals: \<open>r\<close> is a multiple of
  \<open>1/1000\<close>, no further from \<open>y\<close> than \<open>1/2000\<close>, and an even multiple when it is
  exactly half way.
\<close>

definition nearest_three_decimals :: "rat \<Rightarrow> rat \<Rightarrow> bool" where
  "nearest_three_decimals y r \<longleftrightarrow>
     of_int \<lfloor>r * 1000\<rfloor> = r * 1000
     \<and> \<bar>r - y\<bar> \<le> 1 / 2000
     \<and> (\<bar>r - y\<bar> = 1 / 2000 \<longrightarrow> even \<lfloor>r * 1000\<rfloor>)"

section \<open>Rounding\<close>

subsection \<open>Rounding half to even\<close>

lemma rhe_of_int: "round_half_even (of_int n) = n"
  by (simp add: round_half_even_def)

lemma rhe_cases: "round_half_even x = \<lfloor>x\<rfloor> \<or> round_half_even x = \<lfloor>x\<rfloor> + 1"
  by (simp add: round_half_even_def Let_def)

lemma rhe_ge_floor: "\<lfloor>x\<rfloor> \<le> round_half_even x"
  using rhe_cases [of x] by linarith

lemma rhe_le_floor: "round_half_even x \<le> \<lfloor>x\<rfloor> + 1"
  using rhe_cases [of x] by linarith

lemma rhe_mono: assumes "x \<le> y" shows "round_half_even x \<le> round_half_even y"
proof (cases "\<lfloor>x\<rfloor> = \<lfloor>y\<rfloor>")
  case True
  then show ?thesis using assms
    by (auto simp: round_half_even_def Let_def)
next
  case False
  with assms have "\<lfloor>x\<rfloor> < \<lfloor>y\<rfloor>"
    using floor_mono [OF assms] by linarith
  then show ?thesis using rhe_le_floor [of x] rhe_ge_floor [of y] by linarith
qed

lemma rhe_minus: "round_half_even (- x) = - round_half_even x"
proof (cases "x = of_int \<lfloor>x\<rfloor>")
  case True
  then obtain n where "x = of_int n" by metis
  then show ?thesis using rhe_of_int [of n] rhe_of_int [of "- n"] by simp
next
  case False
  then have f: "\<lfloor>- x\<rfloor> = - \<lfloor>x\<rfloor> - 1"
    by (simp add: floor_minus ceiling_altdef)
  show ?thesis using False
    by (auto simp: round_half_even_def Let_def f)
qed

subsection \<open>The binade of a positive number\<close>

lemma bitlen_powi:
  assumes "0 < p"
  shows "2 powi (bitlen p - 1) \<le> (of_int p :: rat)" and "(of_int p :: rat) < 2 powi bitlen p"
proof -
  have b: "1 \<le> bitlen p"
    using assms bitlen_eq_zero_iff [of p] bitlen_nonneg [of p] by linarith
  from bitlen_bounds [OF assms]
  have l: "(2::int) ^ nat (bitlen p - 1) \<le> p" and u: "p < 2 ^ nat (bitlen p)"
    by simp_all
  have "(of_int ((2::int) ^ nat (bitlen p - 1)) :: rat) \<le> of_int p"
    using l by (simp only: of_int_le_iff)
  then show "2 powi (bitlen p - 1) \<le> (of_int p :: rat)"
    using b by (simp add: power_int_nonneg_exp)
  have "(of_int p :: rat) < of_int ((2::int) ^ nat (bitlen p))"
    using u by (simp only: of_int_less_iff)
  then show "(of_int p :: rat) < 2 powi bitlen p"
    using b by (simp add: power_int_nonneg_exp)
qed

lemma binade_bounds:
  assumes "0 < x"
  shows "2 powi binade x \<le> x \<and> x < 2 powi (binade x + 1)"
proof -
  define p where "p = fst (quotient_of x)"
  define q where "q = snd (quotient_of x)"
  have q: "0 < q" by (simp add: q_def quotient_of_denom_pos')
  have x: "x = of_int p / of_int q"
    by (simp add: p_def q_def quotient_of_div)
  with assms q have p: "0 < p"
    by (simp add: zero_less_divide_iff)
  define a where "a = bitlen p"
  define b where "b = bitlen q"
  note pa = bitlen_powi [OF p, folded a_def]
  note qb = bitlen_powi [OF q, folded b_def]
  have q': "(0::rat) < of_int q" using q by simp
  have lo: "2 powi (a - b - 1) \<le> x"
  proof -
    have "(2::rat) powi (a - b - 1) = 2 powi (a - 1) / 2 powi b"
      by (simp add: power_int_diff)
    also have "\<dots> \<le> of_int p / 2 powi b"
      using pa(1) by (simp add: divide_right_mono)
    also have "\<dots> \<le> of_int p / of_int q"
      using qb(2) q' p by (simp add: frac_le)
    finally show ?thesis by (simp add: x)
  qed
  have hi: "x < 2 powi (a - b + 1)"
  proof -
    have "x = of_int p / of_int q" by (rule x)
    also have "\<dots> < 2 powi a / of_int q"
      using pa(2) q' by (simp add: divide_strict_right_mono)
    also have "\<dots> \<le> 2 powi a / 2 powi (b - 1)"
      using qb(1) by (simp add: frac_le)
    also have "\<dots> = 2 powi (a - b + 1)"
      by (simp add: power_int_diff [symmetric] algebra_simps)
    finally show ?thesis .
  qed
  have k: "binade x = (if 2 powi (a - b) \<le> x then a - b else a - b - 1)"
    by (simp add: binade_def Let_def a_def b_def p_def q_def)
  show ?thesis
  proof (cases "2 powi (a - b) \<le> x")
    case True
    then show ?thesis using hi k by simp
  next
    case False
    then show ?thesis using lo k by (simp add: not_le)
  qed
qed

lemma binade_unique:
  assumes "0 < x" "2 powi k \<le> x" "x < 2 powi (k + 1)"
  shows "binade x = k"
proof (rule ccontr)
  assume ne: "binade x \<noteq> k"
  note b = binade_bounds [OF assms(1)]
  show False
  proof (cases "binade x < k")
    case True
    then have "(2::rat) powi (binade x + 1) \<le> 2 powi k"
      by (intro power_int_increasing) auto
    with b assms show False by linarith
  next
    case False
    with ne have "k + 1 \<le> binade x" by simp
    then have "(2::rat) powi (k + 1) \<le> 2 powi binade x"
      by (intro power_int_increasing) auto
    with b assms show False by linarith
  qed
qed

lemma binade_mono:
  assumes "0 < x" "x \<le> y"
  shows "binade x \<le> binade y"
proof (rule ccontr)
  assume "\<not> binade x \<le> binade y"
  then have "binade y + 1 \<le> binade x" by simp
  then have "(2::rat) powi (binade y + 1) \<le> 2 powi binade x"
    by (intro power_int_increasing) auto
  moreover have "0 < y" using assms by simp
  ultimately show False
    using binade_bounds [OF assms(1)] binade_bounds [of y] assms(2) by linarith
qed

subsection \<open>Rounding to the nearest float\<close>

lemma two_powi_add: "(2::rat) powi a * 2 powi b = 2 powi (a + b)"
  by (simp add: power_int_add)

lemma ulp_pos: "0 < ulp x"
  by (simp add: ulp_def)

lemma ulp_minus: "ulp (- x) = ulp x"
  by (simp add: ulp_def)

lemma ulp_of_pos: "0 < x \<Longrightarrow> ulp x = 2 powi (max (binade x) (- 1022) - 52)"
  by (simp add: ulp_def)

lemma scaled_upper:
  assumes "0 < x"
  shows "x / ulp x < 2 ^ 53"
proof -
  define e where "e = max (binade x) (- 1022)"
  have "x < 2 powi (binade x + 1)"
    using binade_bounds [OF assms] by simp
  also have "\<dots> \<le> 2 powi (e + 1)"
    by (intro power_int_increasing) (auto simp: e_def)
  finally have "x / 2 powi (e - 52) < 2 powi (e + 1) / 2 powi (e - 52)"
    by (simp add: divide_strict_right_mono)
  also have "(2::rat) powi (e + 1) / 2 powi (e - 52) = 2 powi 53"
    by (simp add: power_int_diff [symmetric])
  finally show ?thesis
    using assms by (simp add: ulp_of_pos e_def)
qed

lemma scaled_lower:
  assumes "0 < x" "- 1022 \<le> binade x"
  shows "2 ^ 52 \<le> x / ulp x"
proof -
  have u: "ulp x = 2 powi (binade x - 52)"
    using assms by (simp add: ulp_of_pos max_def)
  have "(2::rat) powi 52 = 2 powi binade x / 2 powi (binade x - 52)"
    by (simp add: power_int_diff [symmetric])
  also have "\<dots> \<le> x / 2 powi (binade x - 52)"
    using binade_bounds [OF assms(1)] by (simp add: divide_right_mono)
  finally show ?thesis by (simp add: u)
qed

lemma nearest_double_minus: "nearest_double (- x) = - nearest_double x"
  by (simp add: nearest_double_def ulp_minus rhe_minus)

lemma nearest_double_nonneg:
  assumes "0 \<le> x"
  shows "0 \<le> nearest_double x"
proof -
  have "0 \<le> x / ulp x" using assms ulp_pos [of x] by simp
  then have "round_half_even 0 \<le> round_half_even (x / ulp x)" by (rule rhe_mono)
  then have "0 \<le> round_half_even (x / ulp x)" using rhe_of_int [of 0] by simp
  then show ?thesis using ulp_pos [of x] by (simp add: nearest_double_def)
qed

lemma nearest_double_upper:
  assumes "0 < x"
  shows "nearest_double x \<le> 2 powi (max (binade x) (- 1022) + 1)"
proof -
  define e where "e = max (binade x) (- 1022)"
  have "round_half_even (x / ulp x) \<le> round_half_even (of_int (2 ^ 53))"
    using scaled_upper [OF assms] by (intro rhe_mono) simp
  then have "round_half_even (x / ulp x) \<le> 2 ^ 53"
    by (simp only: rhe_of_int)
  then have "(of_int (round_half_even (x / ulp x)) :: rat) \<le> of_int (2 ^ 53)"
    by (simp only: of_int_le_iff)
  then have "of_int (round_half_even (x / ulp x)) * ulp x \<le> 2 ^ 53 * ulp x"
    using ulp_pos [of x] by (simp add: mult_right_mono)
  also have "(2::rat) ^ 53 * ulp x = 2 powi 53 * 2 powi (e - 52)"
    using assms by (simp add: ulp_of_pos e_def)
  also have "\<dots> = 2 powi (53 + (e - 52))"
    by (rule two_powi_add)
  also have "53 + (e - 52) = e + 1"
    by simp
  finally show ?thesis using assms by (simp add: nearest_double_def e_def)
qed

lemma nearest_double_lower:
  assumes "0 < x" "- 1022 \<le> binade x"
  shows "2 powi binade x \<le> nearest_double x"
proof -
  have u: "ulp x = 2 powi (binade x - 52)"
    using assms by (simp add: ulp_of_pos max_def)
  have "round_half_even (of_int (2 ^ 52)) \<le> round_half_even (x / ulp x)"
    using scaled_lower [OF assms] by (intro rhe_mono) simp
  then have "2 ^ 52 \<le> round_half_even (x / ulp x)"
    by (simp only: rhe_of_int)
  then have "(of_int (2 ^ 52) :: rat) \<le> of_int (round_half_even (x / ulp x))"
    by (simp only: of_int_le_iff)
  then have "2 ^ 52 * ulp x \<le> of_int (round_half_even (x / ulp x)) * ulp x"
    using ulp_pos [of x] by (simp add: mult_right_mono)
  moreover have "(2::rat) ^ 52 * ulp x = 2 powi binade x"
  proof -
    have "(2::rat) ^ 52 * ulp x = 2 powi 52 * 2 powi (binade x - 52)"
      by (simp add: u)
    also have "\<dots> = 2 powi (52 + (binade x - 52))"
      by (rule two_powi_add)
    also have "52 + (binade x - 52) = binade x"
      by simp
    finally show ?thesis .
  qed
  ultimately show ?thesis using assms by (simp add: nearest_double_def)
qed

lemma nearest_double_mono_pos:
  assumes "0 < x" "x \<le> y"
  shows "nearest_double x \<le> nearest_double y"
proof -
  have y: "0 < y" using assms by simp
  define ex where "ex = max (binade x) (- 1022)"
  define ey where "ey = max (binade y) (- 1022)"
  have le: "ex \<le> ey"
    using binade_mono [OF assms] by (simp add: ex_def ey_def)
  show ?thesis
  proof (cases "ex = ey")
    case True
    then have u: "ulp x = ulp y"
      using assms y by (simp add: ulp_of_pos ex_def ey_def)
    have "x / ulp y \<le> y / ulp y"
      using assms ulp_pos [of y] by (simp add: divide_right_mono)
    then have "round_half_even (x / ulp y) \<le> round_half_even (y / ulp y)"
      by (rule rhe_mono)
    then have "(of_int (round_half_even (x / ulp y)) :: rat) \<le> of_int (round_half_even (y / ulp y))"
      by (simp only: of_int_le_iff)
    then show ?thesis
      using assms y ulp_pos [of y] by (simp add: nearest_double_def u mult_right_mono)
  next
    case False
    with le have lt: "ex + 1 \<le> ey" by simp
    then have by': "- 1022 \<le> binade y" and ey: "ey = binade y"
      by (auto simp: ex_def ey_def max_def split: if_splits)
    have "nearest_double x \<le> 2 powi (ex + 1)"
      using nearest_double_upper [OF assms(1)] by (simp add: ex_def)
    also have "\<dots> \<le> 2 powi ey"
      using lt by (intro power_int_increasing) auto
    also have "\<dots> \<le> nearest_double y"
      using nearest_double_lower [OF y by'] by (simp add: ey)
    finally show ?thesis .
  qed
qed

lemma nearest_double_mono:
  assumes "x \<le> y"
  shows "nearest_double x \<le> nearest_double y"
proof -
  consider "0 < x" | "x \<le> 0" "0 \<le> y" | "y < 0" by linarith
  then show ?thesis
  proof cases
    case 1
    then show ?thesis using assms by (rule nearest_double_mono_pos)
  next
    case 2
    then have "0 \<le> nearest_double (- x)" "0 \<le> nearest_double y"
      by (simp_all add: nearest_double_nonneg)
    then show ?thesis by (simp add: nearest_double_minus)
  next
    case 3
    then have "nearest_double (- y) \<le> nearest_double (- x)"
      using assms by (intro nearest_double_mono_pos) auto
    then show ?thesis by (simp add: nearest_double_minus)
  qed
qed

lemma nearest_double_zero: "nearest_double 0 = 0"
  by (simp add: nearest_double_def)

lemma nearest_double_exact_pos:
  assumes x: "x = of_int m * 2 powi k" and m: "0 < m" "m < 2 ^ 53" and k: "- 1074 \<le> k"
  shows "nearest_double x = x"
proof -
  have xpos: "0 < x" using m by (simp add: x)
  define e where "e = max (binade x) (- 1022)"
  have "(of_int m :: rat) < of_int (2 ^ 53)"
    using m(2) by (simp only: of_int_less_iff)
  then have "x < 2 ^ 53 * 2 powi k"
    by (simp add: x)
  also have "(2::rat) ^ 53 * 2 powi k = 2 powi 53 * 2 powi k" by simp
  also have "\<dots> = 2 powi (53 + k)" by (rule two_powi_add)
  finally have xlt: "x < 2 powi (53 + k)" .
  have "binade x < 53 + k"
  proof (rule ccontr)
    assume "\<not> binade x < 53 + k"
    then have "(2::rat) powi (53 + k) \<le> 2 powi binade x"
      by (intro power_int_increasing) auto
    with binade_bounds [OF xpos] xlt show False by linarith
  qed
  with k have e: "e - 52 \<le> k" by (simp add: e_def)
  define j where "j = nat (k - (e - 52))"
  have kj: "k = (e - 52) + int j" using e by (simp add: j_def)
  have u: "ulp x = 2 powi (e - 52)"
    using xpos by (simp add: ulp_of_pos e_def)
  have "x = of_int m * (2 powi (e - 52) * 2 powi int j)"
    unfolding x by (subst kj) (simp only: two_powi_add)
  also have "\<dots> = of_int (m * 2 ^ j) * 2 powi (e - 52)"
    by simp
  finally have xs: "x = of_int (m * 2 ^ j) * ulp x"
    unfolding u .
  then have "x / ulp x = of_int (m * 2 ^ j)"
    using ulp_pos [of x] by (metis nonzero_eq_divide_eq less_irrefl)
  then have "round_half_even (x / ulp x) = m * 2 ^ j"
    by (simp only: rhe_of_int)
  then have "nearest_double x = of_int (m * 2 ^ j) * ulp x"
    using xpos by (simp add: nearest_double_def)
  with xs show ?thesis by simp
qed

lemma nearest_double_exact:
  assumes x: "x = of_int m * 2 powi k" and m: "\<bar>m\<bar> < 2 ^ 53" and k: "- 1074 \<le> k"
  shows "nearest_double x = x"
proof -
  consider "m = 0" | "0 < m" | "m < 0" by linarith
  then show ?thesis
  proof cases
    case 1
    then show ?thesis by (simp add: x nearest_double_zero)
  next
    case 2
    then show ?thesis using nearest_double_exact_pos [OF x _ _ k] m by simp
  next
    case 3
    have "- x = of_int (- m) * 2 powi k" by (simp add: x)
    then have "nearest_double (- x) = - x"
      using 3 m by (intro nearest_double_exact_pos [OF _ _ _ k]) auto
    then show ?thesis by (simp add: nearest_double_minus)
  qed
qed

lemma nearest_double_of_int:
  assumes "\<bar>m\<bar> < 2 ^ 53"
  shows "nearest_double (of_int m) = of_int m"
  using nearest_double_exact [of "of_int m" m 0] assms by simp

lemma to_double_mono: "x \<le> y \<Longrightarrow> float_le (to_double x) (to_double y)"
  using nearest_double_mono [of x y] by (auto simp: to_double_def Let_def)

lemma to_double_not_nan: "to_double x \<noteq> NaN"
  by (simp add: to_double_def Let_def)

lemma to_double_exact:
  assumes x: "x = of_int m * 2 powi k" and m: "\<bar>m\<bar> < 2 ^ 53" and k: "- 1074 \<le> k" "k \<le> 971"
  shows "to_double x = Finite x"
proof -
  have "\<bar>x\<bar> = of_int \<bar>m\<bar> * 2 powi k"
    by (simp add: x abs_mult)
  also have "\<dots> < of_int (2 ^ 53) * 2 powi k"
    using m by (intro mult_strict_right_mono) (simp_all only: of_int_less_iff zero_less_power_int zero_less_numeral)
  also have "\<dots> \<le> of_int (2 ^ 53) * 2 powi 971"
    using k by (intro mult_left_mono power_int_increasing) auto
  also have "\<dots> = 2 ^ 1024" by simp
  finally have "\<bar>x\<bar> < 2 ^ 1024" .
  then show ?thesis
    using nearest_double_exact [OF x m k(1)] by (auto simp: to_double_def Let_def)
qed

lemma nearest_double_below_overflow:
  assumes "nearest_double x < 2 ^ 1024"
  shows "nearest_double x \<le> 2 ^ 1024 - 2 ^ 971"
proof (cases "0 < x")
  case False
  then have "nearest_double x \<le> nearest_double 0"
    by (intro nearest_double_mono) simp
  then show ?thesis by (simp add: nearest_double_zero)
next
  case True
  define e where "e = max (binade x) (- 1022)"
  consider "1024 \<le> e" | "e \<le> 1022" | "e = 1023" by linarith
  then show ?thesis
  proof cases
    case 1
    then have b: "binade x = e" "- 1022 \<le> binade x"
      by (auto simp: e_def max_def split: if_splits)
    have "(2::rat) powi 1024 \<le> 2 powi e"
      using 1 by (intro power_int_increasing) auto
    also have "\<dots> \<le> nearest_double x"
      using nearest_double_lower [OF True b(2)] b(1) by simp
    finally show ?thesis using assms by simp
  next
    case 2
    have "nearest_double x \<le> 2 powi (e + 1)"
      using nearest_double_upper [OF True] by (simp add: e_def)
    also have "\<dots> \<le> 2 powi 1023"
      using 2 by (intro power_int_increasing) auto
    also have "\<dots> \<le> 2 ^ 1024 - 2 ^ 971" by simp
    finally show ?thesis .
  next
    case 3
    then have u: "ulp x = 2 ^ 971"
      using True by (simp add: ulp_of_pos e_def)
    define n where "n = round_half_even (x / ulp x)"
    have nd: "nearest_double x = of_int n * 2 ^ 971"
      using True by (simp add: nearest_double_def n_def u)
    have "of_int n * (2::rat) ^ 971 < 2 ^ 53 * 2 ^ 971"
      using assms by (simp add: nd)
    then have "(of_int n :: rat) < 2 ^ 53"
      by (simp only: mult_less_cancel_right_pos zero_less_power zero_less_numeral)
    then have "(of_int n :: rat) < of_int (2 ^ 53)" by simp
    then have "n < 2 ^ 53" by (simp only: of_int_less_iff)
    then have "n \<le> 2 ^ 53 - 1" by simp
    then have "(of_int n :: rat) \<le> of_int (2 ^ 53 - 1)" by (simp only: of_int_le_iff)
    then have "of_int n * (2::rat) ^ 971 \<le> of_int (2 ^ 53 - 1) * 2 ^ 971"
      by (intro mult_right_mono) simp_all
    also have "\<dots> = 2 ^ 1024 - 2 ^ 971" by simp
    finally show ?thesis by (simp add: nd)
  qed
qed

subsection \<open>Rounding to a number of decimals\<close>

lemma round_decimal_mono: "x \<le> y \<Longrightarrow> round_decimal x n \<le> round_decimal y n"
proof -
  assume "x \<le> y"
  then have "x * 10 ^ n \<le> y * 10 ^ n"
    by (simp add: mult_right_mono)
  then have "round_half_even (x * 10 ^ n) \<le> round_half_even (y * 10 ^ n)"
    by (rule rhe_mono)
  then have "(of_int (round_half_even (x * 10 ^ n)) :: rat) \<le> of_int (round_half_even (y * 10 ^ n))"
    by (simp only: of_int_le_iff)
  then show ?thesis
    by (simp add: round_decimal_def divide_right_mono)
qed

lemma round_decimal_minus: "round_decimal (- x) n = - round_decimal x n"
  by (simp add: round_decimal_def rhe_minus)

lemma round_decimal_of_int: "round_decimal (of_int m) n = of_int m"
proof -
  have "(of_int m :: rat) * 10 ^ n = of_int (m * 10 ^ n)" by simp
  then have "round_half_even (of_int m * 10 ^ n) = m * 10 ^ n"
    by (simp only: rhe_of_int)
  then show ?thesis by (simp add: round_decimal_def)
qed

lemma round_below_overflow:
  assumes "nearest_double x < 2 ^ 1024"
  shows "nearest_double (round_decimal (nearest_double x) n) < 2 ^ 1024"
proof -
  define M :: int where "M = 2 ^ 1024 - 2 ^ 971"
  have M: "(of_int M :: rat) = 2 ^ 1024 - 2 ^ 971" by (simp add: M_def)
  have "nearest_double x \<le> of_int M"
    using nearest_double_below_overflow [OF assms] by (simp add: M)
  then have "round_decimal (nearest_double x) n \<le> round_decimal (of_int M) n"
    by (rule round_decimal_mono)
  then have "round_decimal (nearest_double x) n \<le> of_int M"
    by (simp only: round_decimal_of_int)
  then have "nearest_double (round_decimal (nearest_double x) n) \<le> nearest_double (of_int M)"
    by (rule nearest_double_mono)
  moreover have "nearest_double (of_int M) = of_int M"
  proof (rule nearest_double_exact [of _ "2 ^ 53 - 1" 971])
    show "(of_int M :: rat) = of_int (2 ^ 53 - 1) * 2 powi 971" by (simp add: M)
  qed simp_all
  ultimately show ?thesis by (simp add: M)
qed

lemma round_above_overflow:
  assumes "- (2 ^ 1024) < nearest_double x"
  shows "- (2 ^ 1024) < nearest_double (round_decimal (nearest_double x) n)"
proof -
  have "nearest_double (- x) < 2 ^ 1024"
    using assms by (simp add: nearest_double_minus)
  from round_below_overflow [OF this, of n] show ?thesis
    by (simp add: nearest_double_minus round_decimal_minus)
qed

lemma py_round_to_double: "\<exists>z. py_round (to_double x) n = Inr z"
proof (cases "to_double x")
  case (Finite y)
  then have y: "y = nearest_double x" "nearest_double x < 2 ^ 1024" "- (2 ^ 1024) < nearest_double x"
    by (auto simp: to_double_def Let_def split: if_splits)
  have "to_double (round_decimal y n) = Finite (nearest_double (round_decimal y n))"
    using round_below_overflow [OF y(2), of n] round_above_overflow [OF y(3), of n]
    by (simp add: to_double_def Let_def y(1))
  then show ?thesis by (simp add: Finite)
qed simp_all

lemma relevance_total: "\<exists>s. py_round (float_sub (Finite 1) d) 3 = Inr s"
proof (cases d)
  case (Finite x)
  then show ?thesis using py_round_to_double [of "1 - x" 3] by simp
qed simp_all

subsection \<open>The relevance score of a distance\<close>

lemma float_le_to_double [simp]:
  "float_le NegInf (to_double x)" "float_le (to_double x) PosInf"
  by (simp_all add: to_double_def Let_def)

lemma float_sub_antimono:
  assumes "float_le a b"
  shows "float_le (float_sub (Finite c) b) (float_sub (Finite c) a)"
  using assms by (cases a; cases b) (simp_all add: to_double_mono)

lemma py_round_mono:
  assumes "float_le a b" "py_round a n = Inr sa" "py_round b n = Inr sb"
  shows "float_le sa sb"
proof (cases a)
  case a: (Finite x)
  show ?thesis
  proof (cases b)
    case b: (Finite y)
    have xy: "x \<le> y" using assms(1) a b by simp
    show ?thesis
    proof (cases "323 < n")
      case True
      then show ?thesis using assms(2,3) xy a b by auto
    next
      case False
      from xy have "float_le (to_double (round_decimal x n)) (to_double (round_decimal y n))"
        by (intro to_double_mono round_decimal_mono)
      then show ?thesis using assms(2,3) False a b
        by (auto split: pyfloat.splits if_splits)
    qed
  next
    case PosInf
    then show ?thesis using assms a by (auto split: pyfloat.splits if_splits)
  qed (use assms a in simp_all)
next
  case NegInf
  then show ?thesis using assms by (cases b) (auto split: pyfloat.splits if_splits)
next
  case PosInf
  then show ?thesis using assms by (cases b) (auto split: pyfloat.splits if_splits)
qed (use assms in simp)

lemma relevance_antimono:
  assumes "float_le a b" "py_round (float_sub (Finite 1) a) 3 = Inr sa" "py_round (float_sub (Finite 1) b) 3 = Inr sb"
  shows "float_le sb sa"
  using py_round_mono [OF float_sub_antimono [OF assms(1), of 1]] assms(2,3)
  by simp

lemma relevance_zero: "py_round (float_sub (Finite 1) (Finite 0)) 3 = Inr (Finite 1)"
proof -
  have "to_double 1 = Finite 1"
    using to_double_exact [of 1 1 0] by simp
  moreover have "round_decimal 1 3 = 1"
    using round_decimal_of_int [of 1 3] by simp
  ultimately show ?thesis by simp
qed

lemma relevance_one: "py_round (float_sub (Finite 1) (Finite 1)) 3 = Inr (Finite 0)"
proof -
  have "to_double 0 = Finite 0"
    using to_double_exact [of 0 0 0] by simp
  moreover have "round_decimal 0 3 = 0"
    using round_decimal_of_int [of 0 3] by simp
  ultimately show ?thesis by simp
qed

lemma relevance_range:
  assumes "float_le (Finite 0) d" "float_le d (Finite 1)" "py_round (float_sub (Finite 1) d) 3 = Inr s"
  shows "float_le (Finite 0) s \<and> float_le s (Finite 1)"
  using relevance_antimono [OF assms(1) relevance_zero assms(3)]
        relevance_antimono [OF assms(2) assms(3) relevance_one]
  by simp

lemma relevance_quarter: "py_round (float_sub (Finite 1) (Finite (1 / 4))) 3 = Inr (Finite (3 / 4))"
proof -
  have t: "to_double (3 / 4) = Finite (3 / 4)"
    using to_double_exact [of "3 / 4" 3 "- 2"] by (simp add: power_int_minus)
  have r: "round_decimal (3 / 4) 3 = 3 / 4"
    by (simp add: round_decimal_def round_half_even_def)
  show ?thesis by (simp add: t r)
qed

subsection \<open>The roundings meet their specification\<close>

lemma rhe_near: "\<bar>of_int (round_half_even q) - q\<bar> \<le> 1 / 2"
proof -
  have "of_int \<lfloor>q\<rfloor> \<le> q" "q < of_int \<lfloor>q\<rfloor> + 1" by linarith+
  then show ?thesis
    by (auto simp: round_half_even_def Let_def abs_le_iff)
qed

lemma rhe_tie:
  assumes "\<bar>of_int (round_half_even q) - q\<bar> = 1 / 2"
  shows "even (round_half_even q)"
proof -
  define r where "r = q - of_int \<lfloor>q\<rfloor>"
  have r: "0 \<le> r" "r < 1" unfolding r_def by linarith+
  have q: "q = of_int \<lfloor>q\<rfloor> + r" by (simp add: r_def)
  consider "r < 1 / 2" | "1 / 2 < r" | "r = 1 / 2" by linarith
  then show ?thesis
  proof cases
    case 1
    then have "round_half_even q = \<lfloor>q\<rfloor>"
      by (simp add: round_half_even_def Let_def r_def)
    then have "\<bar>of_int (round_half_even q) - q\<bar> = r"
      using r by (simp add: r_def)
    with assms 1 show ?thesis by simp
  next
    case 2
    then have "round_half_even q = \<lfloor>q\<rfloor> + 1"
      by (simp add: round_half_even_def Let_def r_def)
    then have "of_int (round_half_even q) - q = 1 - r"
      by (simp add: r_def)
    then have "\<bar>of_int (round_half_even q) - q\<bar> = 1 - r"
      using r by simp
    with assms 2 show ?thesis by simp
  next
    case 3
    then show ?thesis by (simp add: round_half_even_def Let_def r_def)
  qed
qed

lemma nearest_float_nearest_double: "nearest_float x (nearest_double x)"
proof (cases "x = 0")
  case True
  then show ?thesis using ulp_pos [of 0] by (simp add: nearest_float_def nearest_double_zero)
next
  case False
  define u where "u = ulp x"
  define n where "n = round_half_even (x / u)"
  have u: "0 < u" by (simp add: u_def ulp_pos)
  have z: "nearest_double x = of_int n * u"
    using False by (simp add: nearest_double_def n_def u_def)
  have q: "nearest_double x / u = of_int n" using u by (simp add: z)
  have d: "\<bar>nearest_double x - x\<bar> = \<bar>of_int n - x / u\<bar> * u"
  proof -
    have "nearest_double x - x = (of_int n - x / u) * u"
      using u by (simp add: z algebra_simps)
    then show ?thesis using u by (simp add: abs_mult)
  qed
  have 1: "of_int \<lfloor>nearest_double x / u\<rfloor> = nearest_double x / u"
    by (simp add: q)
  have 2: "\<bar>nearest_double x - x\<bar> \<le> u / 2"
  proof -
    have "\<bar>of_int n - x / u\<bar> * u \<le> (1 / 2) * u"
      using rhe_near [of "x / u"] u unfolding n_def by (intro mult_right_mono) simp_all
    then show ?thesis by (simp add: d)
  qed
  have 3: "even \<lfloor>nearest_double x / u\<rfloor>" if "\<bar>nearest_double x - x\<bar> = u / 2"
  proof -
    have "\<bar>of_int n - x / u\<bar> * u = (1 / 2) * u" using that by (simp add: d)
    then have "\<bar>of_int n - x / u\<bar> = 1 / 2" using u by simp
    then have "even n" unfolding n_def by (rule rhe_tie)
    then show ?thesis by (simp add: q)
  qed
  show ?thesis unfolding nearest_float_def u_def [symmetric] using 1 2 3 by blast
qed

lemma nearest_three_decimals_round: "nearest_three_decimals y (round_decimal y 3)"
proof -
  define n where "n = round_half_even (y * 1000)"
  have r: "round_decimal y 3 = of_int n / 1000"
    by (simp add: round_decimal_def n_def)
  have q: "round_decimal y 3 * 1000 = of_int n" by (simp add: r)
  have d: "\<bar>round_decimal y 3 - y\<bar> = \<bar>of_int n - y * 1000\<bar> / 1000"
  proof -
    have "round_decimal y 3 - y = (of_int n - y * 1000) / 1000"
      by (simp add: r field_simps)
    then have "\<bar>round_decimal y 3 - y\<bar> = \<bar>(of_int n - y * 1000) / 1000\<bar>"
      by (simp only:)
    also have "\<dots> = \<bar>of_int n - y * 1000\<bar> / \<bar>1000\<bar>"
      by (rule abs_divide)
    finally show ?thesis by simp
  qed
  have 1: "of_int \<lfloor>round_decimal y 3 * 1000\<rfloor> = round_decimal y 3 * 1000"
    by (simp add: q)
  have 2: "\<bar>round_decimal y 3 - y\<bar> \<le> 1 / 2000"
    using rhe_near [of "y * 1000"] unfolding n_def [symmetric] by (simp add: d)
  have 3: "even \<lfloor>round_decimal y 3 * 1000\<rfloor>" if "\<bar>round_decimal y 3 - y\<bar> = 1 / 2000"
  proof -
    have "\<bar>of_int n - y * 1000\<bar> = 1 / 2" using that by (simp add: d)
    then have "even n" unfolding n_def by (rule rhe_tie)
    then show ?thesis by (simp add: q)
  qed
  show ?thesis unfolding nearest_three_decimals_def using 1 2 3 by blast
qed

lemma round_half_even_characterised:
  assumes near: "\<bar>of_int n - q\<bar> \<le> 1 / 2"
      and tie: "\<bar>of_int n - q\<bar> = 1 / 2 \<Longrightarrow> even n"
  shows "round_half_even q = n"
proof (rule ccontr)
  assume ne: "round_half_even q \<noteq> n"
  define m where "m = round_half_even q"
  have m: "\<bar>of_int m - q\<bar> \<le> 1 / 2" unfolding m_def by (rule rhe_near)
  have "\<bar>(of_int m :: rat) - of_int n\<bar> \<le> 1"
    using m near by linarith
  then have "\<bar>(of_int (m - n) :: rat)\<bar> \<le> of_int 1" by simp
  then have "\<bar>m - n\<bar> \<le> 1"
    by (simp only: of_int_abs [symmetric] of_int_le_iff)
  with ne have d: "m = n + 1 \<or> m = n - 1" by (auto simp: m_def)
  then have "\<bar>of_int m - q\<bar> = 1 / 2 \<and> \<bar>of_int n - q\<bar> = 1 / 2"
    using m near by (auto simp: abs_if split: if_splits)
  then have "even m" "even n"
    using rhe_tie [of q] tie by (simp_all add: m_def)
  with d show False by auto
qed

lemma nearest_three_decimals_unique:
  assumes "nearest_three_decimals y r"
  shows "r = round_decimal y 3"
proof -
  define k where "k = \<lfloor>r * 1000\<rfloor>"
  have k: "of_int k = r * 1000"
    using assms by (simp add: nearest_three_decimals_def k_def)
  then have r: "r = of_int k / 1000" by simp
  have d: "\<bar>of_int k - y * 1000\<bar> = \<bar>r - y\<bar> * 1000"
  proof -
    have "of_int k - y * 1000 = (r - y) * 1000" by (simp add: k algebra_simps)
    then have "\<bar>of_int k - y * 1000\<bar> = \<bar>(r - y) * 1000\<bar>" by (simp only:)
    also have "\<dots> = \<bar>r - y\<bar> * \<bar>1000\<bar>" by (rule abs_mult)
    finally show ?thesis by simp
  qed
  have a: "\<bar>r - y\<bar> \<le> 1 / 2000" and b: "\<bar>r - y\<bar> = 1 / 2000 \<Longrightarrow> even k"
    using assms by (simp_all add: nearest_three_decimals_def k_def)
  have "round_half_even (y * 1000) = k"
  proof (rule round_half_even_characterised)
    show "\<bar>of_int k - y * 1000\<bar> \<le> 1 / 2"
      using a by (simp add: d)
    show "even k" if "\<bar>of_int k - y * 1000\<bar> = 1 / 2"
    proof (rule b)
      from that have "\<bar>r - y\<bar> * 1000 = 1 / 2" by (simp only: d)
      then show "\<bar>r - y\<bar> = 1 / 2000" by simp
    qed
  qed
  then show ?thesis by (simp add: round_decimal_def r)
qed

lemma nearest_float_unique:
  assumes "nearest_float x z"
  shows "z = nearest_double x"
proof -
  define u where "u = ulp x"
  have u: "0 < u" by (simp add: u_def ulp_pos)
  define k where "k = \<lfloor>z / u\<rfloor>"
  have k: "of_int k = z / u"
    using assms by (simp add: nearest_float_def k_def u_def)
  then have z: "z = of_int k * u" using u by simp
  have d: "\<bar>of_int k - x / u\<bar> * u = \<bar>z - x\<bar>"
  proof -
    have "(of_int k - x / u) * u = z - x" using u by (simp add: z algebra_simps)
    then have "\<bar>(of_int k - x / u) * u\<bar> = \<bar>z - x\<bar>" by simp
    then show ?thesis using u by (simp add: abs_mult)
  qed
  have a: "\<bar>z - x\<bar> \<le> u / 2" and b: "\<bar>z - x\<bar> = u / 2 \<Longrightarrow> even k"
    using assms by (simp_all add: nearest_float_def u_def k_def)
  have near: "\<bar>of_int k - x / u\<bar> \<le> 1 / 2"
  proof -
    have "\<bar>of_int k - x / u\<bar> * u \<le> u / 2"
      using a by (simp only: d)
    then have "\<bar>of_int k - x / u\<bar> * u \<le> (1 / 2) * u" by simp
    then show ?thesis by (simp only: mult_le_cancel_right_pos [OF u])
  qed
  have tie: "even k" if "\<bar>of_int k - x / u\<bar> = 1 / 2"
  proof -
    have "\<bar>z - x\<bar> = (1 / 2) * u" using that d by (simp only:)
    then have "\<bar>z - x\<bar> = u / 2" by simp
    then show ?thesis by (rule b)
  qed
  have n: "round_half_even (x / u) = k"
    using near tie by (rule round_half_even_characterised)
  show ?thesis
  proof (cases "x = 0")
    case True
    then have "\<bar>of_int k\<bar> \<le> (1 / 2 :: rat)" using near by simp
    then have "\<bar>(of_int k :: rat)\<bar> < of_int 1" by simp
    then have "\<bar>k\<bar> < 1" by (simp only: of_int_abs [symmetric] of_int_less_iff)
    then have "k = 0" by simp
    then show ?thesis using True by (simp add: z nearest_double_zero)
  next
    case False
    then show ?thesis by (simp add: nearest_double_def n u_def [symmetric] z)
  qed
qed

subsection \<open>The score of a finite distance\<close>

lemma nearest_double_bounded:
  assumes "\<bar>x\<bar> \<le> 2 ^ 1023"
  shows "\<bar>nearest_double x\<bar> \<le> 2 ^ 1023"
proof -
  define M :: rat where "M = 2 ^ 1023"
  have e: "nearest_double M = M"
    unfolding M_def using nearest_double_exact [of "2 ^ 1023" 1 1023] by simp
  have x: "x \<le> M" "- M \<le> x"
    using assms by (simp_all add: M_def abs_le_iff)
  have "nearest_double x \<le> nearest_double M"
    using x(1) by (rule nearest_double_mono)
  moreover have "nearest_double (- M) \<le> nearest_double x"
    using x(2) by (rule nearest_double_mono)
  ultimately have "nearest_double x \<le> M" "- M \<le> nearest_double x"
    by (simp_all only: e nearest_double_minus)
  then have "\<bar>nearest_double x\<bar> \<le> M"
    by linarith
  then show ?thesis by (simp only: M_def)
qed

lemma relevance_finite:
  assumes "\<bar>1 - x\<bar> \<le> 2 ^ 1023"
  shows "py_round (float_sub (Finite 1) (Finite x)) 3 =
           Inr (Finite (nearest_double (round_decimal (nearest_double (1 - x)) 3)))"
proof -
  define y where "y = nearest_double (1 - x)"
  have y: "\<bar>y\<bar> \<le> 2 ^ 1023"
    unfolding y_def using assms by (rule nearest_double_bounded)
  then have y': "y < 2 ^ 1024" "- (2 ^ 1024) < y"
    by (simp_all add: abs_le_iff)
  have s: "to_double (1 - x) = Finite y"
    using y' by (simp add: to_double_def Let_def y_def [symmetric])
  have "nearest_double (round_decimal y 3) < 2 ^ 1024"
    "- (2 ^ 1024) < nearest_double (round_decimal y 3)"
    using round_below_overflow [of "1 - x" 3] round_above_overflow [of "1 - x" 3] y'
    by (simp_all add: y_def)
  then have t: "to_double (round_decimal y 3) = Finite (nearest_double (round_decimal y 3))"
    by (simp add: to_double_def Let_def)
  show ?thesis unfolding y_def [symmetric] by (simp add: s t)
qed

lemma nearest_double_in_binade:
  assumes "0 < x" "2 powi k \<le> x" "x < 2 powi (k + 1)" "- 1022 \<le> k"
  shows "nearest_double x = of_int (round_half_even (x / 2 powi (k - 52))) * 2 powi (k - 52)"
proof -
  have "binade x = k" using assms(1-3) by (rule binade_unique)
  then have "ulp x = 2 powi (k - 52)"
    using assms by (simp add: ulp_of_pos max_def)
  then show ?thesis using assms(1) by (simp add: nearest_double_def)
qed

lemma round_half_even_unique:
  assumes "\<bar>of_int n - q\<bar> < 1 / 2"
  shows "round_half_even q = n"
proof -
  have "\<bar>(of_int (round_half_even q) :: rat) - of_int n\<bar> < 1"
    using rhe_near [of q] assms by linarith
  then have "\<bar>(of_int (round_half_even q - n) :: rat)\<bar> < of_int 1"
    by simp
  then have "\<bar>round_half_even q - n\<bar> < 1"
    by (simp only: of_int_abs [symmetric] of_int_less_iff)
  then show ?thesis by simp
qed

lemma round_half_even_tie:
  "round_half_even (of_int n + 1 / 2) = (if even n then n else n + 1)"
proof -
  have "\<lfloor>(of_int n :: rat) + 1 / 2\<rfloor> = n"
    by (rule floor_unique) simp_all
  then show ?thesis by (simp add: round_half_even_def Let_def)
qed

lemma relevance_sixteenth:
  "py_round (float_sub (Finite 1) (Finite (1 / 16))) 3 =
     Inr (Finite (4224376450473525 / 4503599627370496))"
proof -
  have a: "nearest_double (15 / 16) = 15 / 16"
    using nearest_double_exact [of "15 / 16" 15 "- 4"] by (simp add: power_int_minus)
  have "round_half_even (15 / 16 * 10 ^ 3) = 938"
    using round_half_even_tie [of 937] by simp
  then have b: "round_decimal (15 / 16) 3 = 469 / 500"
    by (simp add: round_decimal_def)
  have "round_half_even (469 / 500 / 2 powi (- 1 - 52)) = 8448752900947050"
    by (rule round_half_even_unique) (simp add: power_int_minus)
  then have c: "nearest_double (469 / 500) = 4224376450473525 / 4503599627370496"
    using nearest_double_in_binade [of "469 / 500" "- 1"]
    by (simp add: power_int_minus)
  have "py_round (float_sub (Finite 1) (Finite (1 / 16))) 3 =
           Inr (Finite (nearest_double (round_decimal (nearest_double (1 - 1 / 16)) 3)))"
    by (rule relevance_finite) simp
  then show ?thesis using a b c by simp
qed

lemma relevance_seven_sixteenths:
  "py_round (float_sub (Finite 1) (Finite (7 / 16))) 3 =
     Inr (Finite (2531022990582219 / 4503599627370496))"
proof -
  have a: "nearest_double (9 / 16) = 9 / 16"
    using nearest_double_exact [of "9 / 16" 9 "- 4"] by (simp add: power_int_minus)
  have "round_half_even (9 / 16 * 10 ^ 3) = 562"
    using round_half_even_tie [of 562] by simp
  then have b: "round_decimal (9 / 16) 3 = 281 / 500"
    by (simp add: round_decimal_def)
  have "round_half_even (281 / 500 / 2 powi (- 1 - 52)) = 5062045981164438"
    by (rule round_half_even_unique) (simp add: power_int_minus)
  then have c: "nearest_double (281 / 500) = 2531022990582219 / 4503599627370496"
    using nearest_double_in_binade [of "281 / 500" "- 1"]
    by (simp add: power_int_minus)
  have "py_round (float_sub (Finite 1) (Finite (7 / 16))) 3 =
           Inr (Finite (nearest_double (round_decimal (nearest_double (1 - 7 / 16)) 3)))"
    by (rule relevance_finite) simp
  then show ?thesis using a b c by simp
qed

section \<open>The store calls of a search\<close>

lemma search_tickets_first_event:
  "hd (fst (search_tickets e query n filters)) =
     CollectionQuery (search_query_args query n filters)"
  by (simp add: search_tickets_def Let_def split: sum.splits)

section \<open>Document Builder\<close>

text \<open>
  C2. The Type, Priority and Status values of the document: the \<open>name\<close> of an object,
  otherwise the raw value as a string, the flat alias only when the primary field is
  absent; so a ticket whose \<open>issuetype\<close> is a plain string has that string on its Type
  line. The code does not do this for \<open>issuetype\<close>: on the ticket
  \<open>{"issuetype": "Bug", "summary": "x"}\<close> the Type line is empty, while the metadata of
  the same ticket records the issue type \<open>Bug\<close>.
\<close>

theorem document_drops_string_issuetype:
  "create_searchable_document sample_env [(''issuetype'', JStr ''Bug''), (''summary'', JStr ''x'')]
     = ''Ticket: '' @ [nl] @ ''Type: '' @ [nl] @ ''Priority: '' @ [nl] @ ''Status: '' @ [nl]
       @ ''Summary: x'' @ [nl] @ ''Description:''
   \<and> map_of (extract_metadata sample_env [(''issuetype'', JStr ''Bug''), (''summary'', JStr ''x'')])
        ''issue_type'' = Some (JStr ''Bug'')"
  by code_simp

section \<open>Metadata Extractor\<close>

text \<open>
  C3. Every value of the mapping that \<open>extract_metadata\<close> returns is a string; a ticket
  whose \<open>assignee\<close> is an object without \<open>displayName\<close> gives a string or no key. The
  code does not do this: on the ticket \<open>{"key": "T-1", "assignee": {"name": "bob"}}\<close>
  the value of \<open>assignee\<close> in the metadata is the object itself.
\<close>

theorem metadata_keeps_assignee_object:
  "extract_metadata sample_env
     [(''key'', JStr ''T-1''), (''assignee'', JObj [(''name'', JStr ''bob'')])]
     = [(''key'', JStr ''T-1''), (''assignee'', JObj [(''name'', JStr ''bob'')]),
        (''indexed_at'', JStr ''2024-01-15T10:30:00.000000'')]
   \<and> \<not> is_str (JObj [(''name'', JStr ''bob'')])"
  by code_simp

text \<open>
  C5. The mapping that \<open>extract_metadata\<close> returns has no key with an empty or falsy
  value: it holds exactly the entries of the nine resolved fields whose value is truthy,
  so no value is the empty string or \<open>None\<close>; and \<open>indexed_at\<close>, a timestamp that is
  never empty, is always there.
\<close>

theorem metadata_values_nonempty:
  assumes "now_isoformat e \<noteq> []"
  shows "(\<forall>(k, v) \<in> set (extract_metadata e t). truthy v \<and> v \<noteq> JStr [] \<and> v \<noteq> JNull)
       \<and> set (extract_metadata e t) = {(k, v) \<in> set (metadata_fields e t). truthy v}
       \<and> map_of (extract_metadata e t) ''indexed_at'' = Some (JStr (now_isoformat e))"
proof (intro conjI)
  show "\<forall>(k, v) \<in> set (extract_metadata e t). truthy v \<and> v \<noteq> JStr [] \<and> v \<noteq> JNull"
    by (auto simp: extract_metadata_def)
  show "set (extract_metadata e t) = {(k, v) \<in> set (metadata_fields e t). truthy v}"
    by (auto simp: extract_metadata_def)
  show "map_of (extract_metadata e t) ''indexed_at'' = Some (JStr (now_isoformat e))"
    using assms by (simp add: extract_metadata_def metadata_fields_def)
qed

theorem metadata_values_nonempty_witness:
  "now_isoformat sample_env \<noteq> []
   \<and> extract_metadata sample_env
        [(''key'', JStr ''T-1''), (''priority'', JStr []), (''status'', JNull)]
       = [(''key'', JStr ''T-1''), (''indexed_at'', JStr ''2024-01-15T10:30:00.000000'')]
   \<and> map_of (extract_metadata sample_env
                [(''key'', JStr ''T-1''), (''priority'', JStr []), (''status'', JNull)])
        ''indexed_at'' = Some (JStr (now_isoformat sample_env))"
proof -
  have h: "now_isoformat sample_env \<noteq> []"
    by (simp add: sample_env_def)
  have v: "extract_metadata sample_env
             [(''key'', JStr ''T-1''), (''priority'', JStr []), (''status'', JNull)]
           = [(''key'', JStr ''T-1''), (''indexed_at'', JStr ''2024-01-15T10:30:00.000000'')]"
    by code_simp
  from metadata_values_nonempty
         [OF h, of "[(''key'', JStr ''T-1''), (''priority'', JStr []), (''status'', JNull)]"]
       h v
  show ?thesis by blast
qed

section \<open>Knowledge Store: failures of a search\<close>

text \<open>
  C8. Whatever the query, the limit and the filters, when the query of the Vector Store
  raises, \<open>search_tickets\<close> does not raise: it logs the error and returns the empty
  sequence.
\<close>

theorem search_failure_swallowed:
  assumes "collection_query e (search_query_args query n filters) = Inl ex"
  shows "search_tickets e query n filters =
           ([CollectionQuery (search_query_args query n filters),
             LogError (''Search failed: '' @ exn_str ex)], [])"
  using assms by (simp add: search_tickets_def)

theorem search_failure_swallowed_witness:
  "collection_query (answering sample_env (Inl (StoreError ''disk full'')))
     (search_query_args ''login'' 5 None) = Inl (StoreError ''disk full'')
   \<and> search_tickets (answering sample_env (Inl (StoreError ''disk full''))) ''login'' 5 None =
       ([CollectionQuery \<lparr>query_texts = [''login''], n_results = 5, q_where = []\<rparr>,
         LogError ''Search failed: disk full''], [])"
proof -
  have h: "collection_query (answering sample_env (Inl (StoreError ''disk full'')))
     (search_query_args ''login'' 5 None) = Inl (StoreError ''disk full'')"
    by (simp add: answering_def)
  from search_failure_swallowed [OF h] h show ?thesis
    by (simp add: search_query_args_def)
qed

section \<open>Filtering\<close>

text \<open>
  C9. With all four criteria empty, \<open>filter_jira_tickets\<close> returns an error-tagged result
  and makes no call of the store; with at least one criterion it makes the calls of
  \<open>search_tickets\<close> with the empty query, limit 20 and the filter mapping, which holds
  exactly the criteria that are not empty.
\<close>

theorem filter_requires_criterion:
  "filter_jira_tickets e [] [] [] [] =
     ([], [(''status'', JStr ''error''),
           (''error_message'', JStr ''At least one filter criteria must be provided'')])
   \<and> (issue_type \<noteq> [] \<or> priority \<noteq> [] \<or> status \<noteq> [] \<or> assignee \<noteq> [] \<longrightarrow>
        fst (filter_jira_tickets e issue_type priority status assignee) =
          fst (search_tickets e [] 20 (Some (build_filters issue_type priority status assignee)))
        \<and> hd (fst (filter_jira_tickets e issue_type priority status assignee)) =
            CollectionQuery \<lparr>query_texts = [[]], n_results = 20,
                             q_where = build_filters issue_type priority status assignee\<rparr>)
   \<and> build_filters issue_type priority status assignee =
       filter (\<lambda>(k, v). v \<noteq> JStr [])
         [(''issue_type'', JStr issue_type), (''priority'', JStr priority),
          (''status'', JStr status), (''assignee'', JStr assignee)]"
proof (intro conjI impI)
  show "filter_jira_tickets e [] [] [] [] =
     ([], [(''status'', JStr ''error''),
           (''error_message'', JStr ''At least one filter criteria must be provided'')])"
    by (simp add: filter_jira_tickets_def build_filters_def error_result_def)
next
  assume a: "issue_type \<noteq> [] \<or> priority \<noteq> [] \<or> status \<noteq> [] \<or> assignee \<noteq> []"
  then have ne: "build_filters issue_type priority status assignee \<noteq> []"
    by (auto simp: build_filters_def)
  show f: "fst (filter_jira_tickets e issue_type priority status assignee) =
          fst (search_tickets e [] 20 (Some (build_filters issue_type priority status assignee)))"
    using ne by (simp add: filter_jira_tickets_def Let_def split: prod.splits)
  show "hd (fst (filter_jira_tickets e issue_type priority status assignee)) =
            CollectionQuery \<lparr>query_texts = [[]], n_results = 20,
                             q_where = build_filters issue_type priority status assignee\<rparr>"
    using ne by (simp add: f search_tickets_first_event search_query_args_def)
next
  show "build_filters issue_type priority status assignee =
       filter (\<lambda>(k, v). v \<noteq> JStr [])
         [(''issue_type'', JStr issue_type), (''priority'', JStr priority),
          (''status'', JStr status), (''assignee'', JStr assignee)]"
    by (simp add: build_filters_def)
qed

theorem filter_requires_criterion_witness:
  "fst (filter_jira_tickets sample_env ''Bug'' [] ''Open'' []) =
       [CollectionQuery
          \<lparr>query_texts = [[]], n_results = 20,
           q_where = [(''issue_type'', JStr ''Bug''), (''status'', JStr ''Open'')]\<rparr>]
   \<and> filter_jira_tickets sample_env [] [] [] [] =
       ([], [(''status'', JStr ''error''),
             (''error_message'', JStr ''At least one filter criteria must be provided'')])"
proof -
  have h: "''Bug'' \<noteq> [] \<or> [] \<noteq> ([] :: string) \<or> ''Open'' \<noteq> [] \<or> [] \<noteq> ([] :: string)"
    by simp
  have s: "fst (search_tickets sample_env [] 20 (Some (build_filters ''Bug'' [] ''Open'' []))) =
       [CollectionQuery
          \<lparr>query_texts = [[]], n_results = 20,
           q_where = [(''issue_type'', JStr ''Bug''), (''status'', JStr ''Open'')]\<rparr>]"
    by code_simp
  from filter_requires_criterion [of sample_env "''Bug''" "[]" "''Open''" "[]"] h s
  show ?thesis by simp
qed

section \<open>Adding a ticket with an empty key\<close>

text \<open>
  C10. A ticket whose \<open>key\<close> is present with the empty string as its value, and whose
  \<open>summary\<close> is not empty, passes the validation of \<open>add_jira_ticket\<close>, and
  \<open>add_ticket\<close> writes the record under the empty string as its identifier. The
  identifier with the prefix \<open>TICKET-\<close> is made only when \<open>key\<close> is absent: whenever
  \<open>key\<close> is present its value is the identifier.
\<close>

theorem empty_key_is_kept:
  assumes "json_loads e ticket_json = Some (JObj t)"
      and "map_of t ''key'' = Some (JStr [])"
      and "truthy (dict_get t ''summary'' JNull)"
  shows "add_jira_ticket e ticket_json =
     (let args = \<lparr>add_documents = [create_searchable_document e t],
                  add_metadatas = [extract_metadata e t],
                  add_ids = [JStr []]\<rparr>
      in case collection_add e args of
           None \<Rightarrow>
             ([CollectionAdd args, LogInfo ''Added ticket  to knowledge base''],
              [(''status'', JStr ''success''),
               (''result'', JStr ''Successfully added ticket  to knowledge base''),
               (''ticket_id'', JStr [])])
         | Some ex \<Rightarrow>
             ([CollectionAdd args, LogError (''Failed to add ticket : '' @ exn_str ex)],
              error_result (''Failed to add ticket: '' @ exn_str ex)))
    \<and> hd (fst (add_ticket e t')) =
        CollectionAdd
          \<lparr>add_documents = [create_searchable_document e t'],
           add_metadatas = [extract_metadata e t'],
           add_ids = [case map_of t' ''key'' of
                        Some k \<Rightarrow> k
                      | None \<Rightarrow> JStr (''TICKET-'' @ take 8 (uuid4_str e))]\<rparr>"
proof
  show "add_jira_ticket e ticket_json =
     (let args = \<lparr>add_documents = [create_searchable_document e t],
                  add_metadatas = [extract_metadata e t],
                  add_ids = [JStr []]\<rparr>
      in case collection_add e args of
           None \<Rightarrow>
             ([CollectionAdd args, LogInfo ''Added ticket  to knowledge base''],
              [(''status'', JStr ''success''),
               (''result'', JStr ''Successfully added ticket  to knowledge base''),
               (''ticket_id'', JStr [])])
         | Some ex \<Rightarrow>
             ([CollectionAdd args, LogError (''Failed to add ticket : '' @ exn_str ex)],
              error_result (''Failed to add ticket: '' @ exn_str ex)))"
    using assms
    by (simp add: add_jira_ticket_def add_ticket_def dict_get_def py_str_def Let_def
        split: option.splits)
  show "hd (fst (add_ticket e t')) =
        CollectionAdd
          \<lparr>add_documents = [create_searchable_document e t'],
           add_metadatas = [extract_metadata e t'],
           add_ids = [case map_of t' ''key'' of
                        Some k \<Rightarrow> k
                      | None \<Rightarrow> JStr (''TICKET-'' @ take 8 (uuid4_str e))]\<rparr>"
    by (simp add: add_ticket_def dict_get_def Let_def split: option.splits)
qed

theorem empty_key_is_kept_witness:
  "add_jira_ticket (parsing sample_env (JObj [(''key'', JStr []), (''summary'', JStr ''Crash'')]))
     ''{...}'' =
     ([CollectionAdd
         \<lparr>add_documents = [''Ticket: '' @ [nl] @ ''Type: '' @ [nl] @ ''Priority: '' @ [nl]
                           @ ''Status: '' @ [nl] @ ''Summary: Crash'' @ [nl] @ ''Description:''],
          add_metadatas = [[(''indexed_at'', JStr ''2024-01-15T10:30:00.000000'')]],
          add_ids = [JStr []]\<rparr>,
       LogInfo ''Added ticket  to knowledge base''],
      [(''status'', JStr ''success''),
       (''result'', JStr ''Successfully added ticket  to knowledge base''),
       (''ticket_id'', JStr [])])
   \<and> hd (fst (add_ticket
                (parsing sample_env (JObj [(''key'', JStr []), (''summary'', JStr ''Crash'')]))
                [(''summary'', JStr ''Crash'')])) =
       CollectionAdd
         \<lparr>add_documents = [''Ticket: '' @ [nl] @ ''Type: '' @ [nl] @ ''Priority: '' @ [nl]
                           @ ''Status: '' @ [nl] @ ''Summary: Crash'' @ [nl] @ ''Description:''],
          add_metadatas = [[(''indexed_at'', JStr ''2024-01-15T10:30:00.000000'')]],
          add_ids = [JStr ''TICKET-3f2b8c1a'']\<rparr>"
proof -
  let ?t = "[(''key'', JStr []), (''summary'', JStr ''Crash'')]"
  let ?e = "parsing sample_env (JObj ?t)"
  have h1: "json_loads ?e ''{...}'' = Some (JObj ?t)"
    by (simp add: parsing_def)
  have h2: "map_of ?t ''key'' = Some (JStr [])"
    by simp
  have h3: "truthy (dict_get ?t ''summary'' JNull)"
    by (simp add: dict_get_def)
  have d: "create_searchable_document ?e ?t =
             ''Ticket: '' @ [nl] @ ''Type: '' @ [nl] @ ''Priority: '' @ [nl]
             @ ''Status: '' @ [nl] @ ''Summary: Crash'' @ [nl] @ ''Description:''"
    by code_simp
  have d': "create_searchable_document ?e [(''summary'', JStr ''Crash'')] =
             ''Ticket: '' @ [nl] @ ''Type: '' @ [nl] @ ''Priority: '' @ [nl]
             @ ''Status: '' @ [nl] @ ''Summary: Crash'' @ [nl] @ ''Description:''"
    by code_simp
  have m: "extract_metadata ?e ?t = [(''indexed_at'', JStr ''2024-01-15T10:30:00.000000'')]"
    by code_simp
  have m': "extract_metadata ?e [(''summary'', JStr ''Crash'')] =
              [(''indexed_at'', JStr ''2024-01-15T10:30:00.000000'')]"
    by code_simp
  have c: "collection_add ?e = (\<lambda>a. None)" and u: "uuid4_str ?e = ''3f2b8c1a-9d4e-4f6a-8b7c-1a2b3c4d5e6f''"
    by (simp_all add: parsing_def sample_env_def)
  note T = empty_key_is_kept [OF h1 h2 h3, of "[(''summary'', JStr ''Crash'')]"]
  have A: "add_jira_ticket ?e ''{...}'' =
     ([CollectionAdd
         \<lparr>add_documents = [''Ticket: '' @ [nl] @ ''Type: '' @ [nl] @ ''Priority: '' @ [nl]
                           @ ''Status: '' @ [nl] @ ''Summary: Crash'' @ [nl] @ ''Description:''],
          add_metadatas = [[(''indexed_at'', JStr ''2024-01-15T10:30:00.000000'')]],
          add_ids = [JStr []]\<rparr>,
       LogInfo ''Added ticket  to knowledge base''],
      [(''status'', JStr ''success''),
       (''result'', JStr ''Successfully added ticket  to knowledge base''),
       (''ticket_id'', JStr [])])"
    using T [THEN conjunct1] by (simp add: d m c)
  have B: "hd (fst (add_ticket
                (parsing sample_env (JObj [(''key'', JStr []), (''summary'', JStr ''Crash'')]))
                [(''summary'', JStr ''Crash'')])) =
       CollectionAdd
         \<lparr>add_documents = [''Ticket: '' @ [nl] @ ''Type: '' @ [nl] @ ''Priority: '' @ [nl]
                           @ ''Status: '' @ [nl] @ ''Summary: Crash'' @ [nl] @ ''Description:''],
          add_metadatas = [[(''indexed_at'', JStr ''2024-01-15T10:30:00.000000'')]],
          add_ids = [JStr ''TICKET-3f2b8c1a'']\<rparr>"
    using T [THEN conjunct2] by (simp add: d' m' u)
  from A B show ?thesis by simp
qed

section \<open>The limit of a search\<close>

text \<open>
  C4. Whatever limit \<open>N\<close> the caller gives, the search of the Knowledge Store queries the
  Vector Store with a count clamped to 1..20. This fails for \<open>search_tickets\<close> itself,
  which bounds the count only from above: with \<open>N = 0\<close> it asks the store for 0 rows.
\<close>

theorem store_search_passes_zero:
  "search_tickets sample_env ''q'' 0 None =
     ([CollectionQuery \<lparr>query_texts = [''q''], n_results = 0, q_where = []\<rparr>], [])
   \<and> search_tickets sample_env ''q'' 1 None =
     ([CollectionQuery \<lparr>query_texts = [''q''], n_results = 1, q_where = []\<rparr>], [])
   \<and> search_tickets sample_env ''q'' 0 None \<noteq> search_tickets sample_env ''q'' 1 None"
  by code_simp

text \<open>
  C4, amended. The tool \<open>search_jira_tickets\<close> clamps the limit to 1..20 before it calls
  the Knowledge Store: it queries the Vector Store for \<open>min (max 1 N) 20\<close> rows, so it
  behaves for \<open>N > 20\<close> as for 20 and for \<open>N < 1\<close> as for 1. \<open>search_tickets\<close> itself
  queries for \<open>min N 20\<close> rows: it behaves for \<open>N > 20\<close> as for 20.
\<close>

theorem search_limit_clamped:
  "hd (fst (search_jira_tickets e query limit)) =
     CollectionQuery \<lparr>query_texts = [query], n_results = min (max 1 limit) 20, q_where = []\<rparr>
   \<and> 1 \<le> min (max 1 limit) 20 \<and> min (max 1 limit) 20 \<le> 20
   \<and> (20 < limit \<longrightarrow> search_jira_tickets e query limit = search_jira_tickets e query 20)
   \<and> (limit < 1 \<longrightarrow> search_jira_tickets e query limit = search_jira_tickets e query 1)
   \<and> hd (fst (search_tickets e query n filters)) =
       CollectionQuery
         \<lparr>query_texts = [query], n_results = min n 20,
          q_where = (case filters of None \<Rightarrow> [] | Some f \<Rightarrow> f)\<rparr>
   \<and> (20 < n \<longrightarrow> search_tickets e query n filters = search_tickets e query 20 filters)"
proof (intro conjI impI)
  have "fst (search_jira_tickets e query limit) =
          fst (search_tickets e query (min (max 1 limit) 20) None)"
    by (simp add: search_jira_tickets_def Let_def split: prod.splits)
  then show "hd (fst (search_jira_tickets e query limit)) =
     CollectionQuery \<lparr>query_texts = [query], n_results = min (max 1 limit) 20, q_where = []\<rparr>"
    by (simp add: search_tickets_first_event search_query_args_def)
  show "1 \<le> min (max 1 limit) 20" by simp
  show "min (max 1 limit) 20 \<le> 20" by simp
  show "search_jira_tickets e query limit = search_jira_tickets e query 20" if "20 < limit"
    using that by (simp add: search_jira_tickets_def)
  show "search_jira_tickets e query limit = search_jira_tickets e query 1" if "limit < 1"
    using that by (simp add: search_jira_tickets_def max_def)
  show "hd (fst (search_tickets e query n filters)) =
       CollectionQuery
         \<lparr>query_texts = [query], n_results = min n 20,
          q_where = (case filters of None \<Rightarrow> [] | Some f \<Rightarrow> f)\<rparr>"
    by (simp add: search_tickets_first_event search_query_args_def split: option.splits)
  show "search_tickets e query n filters = search_tickets e query 20 filters" if "20 < n"
    using that by (simp add: search_tickets_def search_query_args_def)
qed

theorem search_limit_clamped_witness:
  "search_jira_tickets sample_env ''q'' 50 = search_jira_tickets sample_env ''q'' 20
   \<and> search_jira_tickets sample_env ''q'' (- 3) = search_jira_tickets sample_env ''q'' 1
   \<and> hd (fst (search_jira_tickets sample_env ''q'' 50)) =
       CollectionQuery \<lparr>query_texts = [''q''], n_results = 20, q_where = []\<rparr>
   \<and> hd (fst (search_jira_tickets sample_env ''q'' (- 3))) =
       CollectionQuery \<lparr>query_texts = [''q''], n_results = 1, q_where = []\<rparr>
   \<and> search_tickets sample_env ''q'' 50 None = search_tickets sample_env ''q'' 20 None"
proof -
  note A = search_limit_clamped [of sample_env "''q''" 50 50 None]
  note B = search_limit_clamped [of sample_env "''q''" "- 3" 50 None]
  have 1: "search_jira_tickets sample_env ''q'' 50 = search_jira_tickets sample_env ''q'' 20"
    using A by simp
  have 2: "search_jira_tickets sample_env ''q'' (- 3) = search_jira_tickets sample_env ''q'' 1"
    using B by simp
  have 3: "hd (fst (search_jira_tickets sample_env ''q'' 50)) =
       CollectionQuery \<lparr>query_texts = [''q''], n_results = 20, q_where = []\<rparr>"
    using A [THEN conjunct1] by simp
  have 4: "hd (fst (search_jira_tickets sample_env ''q'' (- 3))) =
       CollectionQuery \<lparr>query_texts = [''q''], n_results = 1, q_where = []\<rparr>"
    using B [THEN conjunct1] by simp
  have 5: "search_tickets sample_env ''q'' 50 None = search_tickets sample_env ''q'' 20 None"
    using A by simp
  from 1 2 3 4 5 show ?thesis by blast
qed

section \<open>Relevance scores\<close>

lemma format_results_ok:
  assumes "documents results = [docs]" "metadatas results = [metas]" "distances results = [ds]"
      and "i + length xs \<le> length docs" "i + length xs \<le> length metas"
          "i + length xs \<le> length ds"
  shows "\<exists>rs. format_results results i xs = Inr rs \<and> length rs = length xs
           \<and> (\<forall>j < length xs.
                 ticket_id (rs ! j) = xs ! j
               \<and> content (rs ! j) = docs ! (i + j)
               \<and> metadata (rs ! j) = metas ! (i + j)
               \<and> py_round (float_sub (Finite 1) (ds ! (i + j))) 3 = Inr (relevance_score (rs ! j)))"
  using assms(4-6)
proof (induction xs arbitrary: i)
  case Nil
  then show ?case by simp
next
  case (Cons x xs)
  obtain s where s: "py_round (float_sub (Finite 1) (ds ! i)) 3 = Inr s"
    using relevance_total by blast
  have r: "format_result results i x =
             Inr \<lparr>ticket_id = x, content = docs ! i, metadata = metas ! i, relevance_score = s\<rparr>"
    using Cons.prems s by (simp add: format_result_def and_then_def py_index_def assms(1-3))
  from Cons.prems have "Suc i + length xs \<le> length docs" "Suc i + length xs \<le> length metas"
    "Suc i + length xs \<le> length ds" by simp_all
  from Cons.IH [OF this] obtain rs where rs: "format_results results (Suc i) xs = Inr rs"
    "length rs = length xs"
    "\<forall>j < length xs.
                 ticket_id (rs ! j) = xs ! j
               \<and> content (rs ! j) = docs ! (Suc i + j)
               \<and> metadata (rs ! j) = metas ! (Suc i + j)
               \<and> py_round (float_sub (Finite 1) (ds ! (Suc i + j))) 3 = Inr (relevance_score (rs ! j))"
    by blast
  let ?r = "\<lparr>ticket_id = x, content = docs ! i, metadata = metas ! i, relevance_score = s\<rparr>"
  have "format_results results i (x # xs) = Inr (?r # rs)"
    by (simp add: r rs(1) and_then_def)
  moreover have "\<forall>j < length (x # xs).
                 ticket_id ((?r # rs) ! j) = (x # xs) ! j
               \<and> content ((?r # rs) ! j) = docs ! (i + j)
               \<and> metadata ((?r # rs) ! j) = metas ! (i + j)
               \<and> py_round (float_sub (Finite 1) (ds ! (i + j))) 3 = Inr (relevance_score ((?r # rs) ! j))"
  proof (intro allI impI)
    fix j assume "j < length (x # xs)"
    then show "ticket_id ((?r # rs) ! j) = (x # xs) ! j
               \<and> content ((?r # rs) ! j) = docs ! (i + j)
               \<and> metadata ((?r # rs) ! j) = metas ! (i + j)
               \<and> py_round (float_sub (Finite 1) (ds ! (i + j))) 3 = Inr (relevance_score ((?r # rs) ! j))"
      using rs(3) s by (cases j) simp_all
  qed
  ultimately show ?case using rs(2) by (intro exI [of _ "?r # rs"]) simp
qed

text \<open>
  C7. For every sequence of distances that the Vector Store returns, the relevance score
  of each result is 1 minus its distance, rounded to 3 decimals: for a finite distance
  \<open>x\<close> the score is a float \<open>z\<close> nearest to a multiple \<open>r\<close> of \<open>1/1000\<close> that is
  nearest, ties to even, to the float \<open>y\<close> nearest to \<open>1 - x\<close>, and these three
  roundings leave no other value for it. For a distance in \<open>[0, 1]\<close> the score lies in \<open>[0, 1]\<close>;
  and when the distances are in non-decreasing order, the scores of the results are
  non-increasing in the order of the results. A well-formed answer of the store always
  gives one result per row: the rounding never overflows.
\<close>

theorem relevance_scores:
  assumes q: "collection_query e (search_query_args query n filters) = Inr results"
      and shape: "ids results = [ids0]" "documents results = [docs]"
                 "metadatas results = [metas]" "distances results = [ds]"
      and len: "length docs = length ids0" "length metas = length ids0"
               "length ds = length ids0"
  shows "length (snd (search_tickets e query n filters)) = length ids0
       \<and> (\<forall>i < length ids0.
             py_round (float_sub (Finite 1) (ds ! i)) 3 =
               Inr (relevance_score (snd (search_tickets e query n filters) ! i)))
       \<and> (\<forall>i < length ids0. \<forall>x.
             ds ! i = Finite x \<and> \<bar>1 - x\<bar> \<le> 2 ^ 1023 \<longrightarrow>
             (\<exists>y r z. nearest_float (1 - x) y
                    \<and> nearest_three_decimals y r
                    \<and> nearest_float r z
                    \<and> relevance_score (snd (search_tickets e query n filters) ! i) = Finite z)
             \<and> (\<forall>y r z. nearest_float (1 - x) y
                    \<and> nearest_three_decimals y r
                    \<and> nearest_float r z \<longrightarrow>
                    relevance_score (snd (search_tickets e query n filters) ! i) = Finite z))
       \<and> (\<forall>i < length ids0.
             float_le (Finite 0) (ds ! i) \<and> float_le (ds ! i) (Finite 1) \<longrightarrow>
             float_le (Finite 0) (relevance_score (snd (search_tickets e query n filters) ! i))
             \<and> float_le (relevance_score (snd (search_tickets e query n filters) ! i)) (Finite 1))
       \<and> (sorted_wrt float_le ds \<longrightarrow>
             sorted_wrt (\<lambda>a b. float_le b a)
               (map relevance_score (snd (search_tickets e query n filters))))"
proof -
  from format_results_ok [OF shape(2-4), of 0 ids0] len
  obtain rs where rs: "format_results results 0 ids0 = Inr rs" "length rs = length ids0"
    and sc: "\<forall>j < length ids0.
               py_round (float_sub (Finite 1) (ds ! j)) 3 = Inr (relevance_score (rs ! j))"
    by auto
  have st: "snd (search_tickets e query n filters) = rs"
    by (simp add: search_tickets_def q shape(1) py_index_def and_then_def rs(1))
  have rounded: "\<exists>y r z. nearest_float (1 - x) y \<and> nearest_three_decimals y r
                   \<and> nearest_float r z \<and> relevance_score (rs ! i) = Finite z"
    if "i < length ids0" "ds ! i = Finite x \<and> \<bar>1 - x\<bar> \<le> 2 ^ 1023" for i x
  proof -
    define y where "y = nearest_double (1 - x)"
    define r where "r = round_decimal y 3"
    define z where "z = nearest_double r"
    have "py_round (float_sub (Finite 1) (Finite x)) 3 = Inr (Finite z)"
      using that(2) relevance_finite [of x] by (simp only: y_def r_def z_def)
    moreover have "py_round (float_sub (Finite 1) (Finite x)) 3 = Inr (relevance_score (rs ! i))"
      using sc that by auto
    ultimately have "relevance_score (rs ! i) = Finite z" by simp
    moreover have "nearest_float (1 - x) y"
      unfolding y_def by (rule nearest_float_nearest_double)
    moreover have "nearest_three_decimals y r"
      unfolding r_def by (rule nearest_three_decimals_round)
    moreover have "nearest_float r z"
      unfolding z_def by (rule nearest_float_nearest_double)
    ultimately show ?thesis by blast
  qed
  have determined: "relevance_score (rs ! i) = Finite z"
    if "i < length ids0" "ds ! i = Finite x \<and> \<bar>1 - x\<bar> \<le> 2 ^ 1023"
      "nearest_float (1 - x) y \<and> nearest_three_decimals y r \<and> nearest_float r z"
    for i x y r z
  proof -
    have y: "y = nearest_double (1 - x)"
      using that(3) by (simp add: nearest_float_unique)
    have r: "r = round_decimal y 3"
      using that(3) by (simp add: nearest_three_decimals_unique)
    have z: "z = nearest_double r"
      using that(3) by (simp add: nearest_float_unique)
    have "py_round (float_sub (Finite 1) (Finite x)) 3 = Inr (Finite z)"
      using that(2) relevance_finite [of x] by (simp only: y r z)
    moreover have "py_round (float_sub (Finite 1) (Finite x)) 3 = Inr (relevance_score (rs ! i))"
      using sc that(1,2) by auto
    ultimately show ?thesis by simp
  qed
  have range: "float_le (Finite 0) (relevance_score (rs ! i))
               \<and> float_le (relevance_score (rs ! i)) (Finite 1)"
    if "i < length ids0" "float_le (Finite 0) (ds ! i) \<and> float_le (ds ! i) (Finite 1)" for i
    using that sc relevance_range [of "ds ! i" "relevance_score (rs ! i)"] by simp
  have sorted: "sorted_wrt (\<lambda>a b. float_le b a) (map relevance_score rs)"
    if "sorted_wrt float_le ds"
  proof -
    have "float_le (relevance_score (rs ! j)) (relevance_score (rs ! i))"
      if "i < j" "j < length rs" for i j
    proof -
      have "float_le (ds ! i) (ds ! j)"
        using \<open>sorted_wrt float_le ds\<close> that rs(2) len(3) by (simp add: sorted_wrt_iff_nth_less)
      then show ?thesis
        using sc that rs(2) relevance_antimono [of "ds ! i" "ds ! j"] by simp
    qed
    then show ?thesis by (simp add: sorted_wrt_iff_nth_less)
  qed
  show ?thesis
    unfolding st using rs(2) sc rounded determined range sorted by blast
qed

lemma list_of_length_two: "length xs = 2 \<Longrightarrow> xs = [xs ! 0, xs ! Suc 0]"
  by (auto simp: numeral_2_eq_2 length_Suc_conv)

text \<open>
  The distances \<open>0.0625\<close> and \<open>0.4375\<close>: \<open>1 - 0.0625 = 0.9375\<close> is half way between
  \<open>0.937\<close> and \<open>0.938\<close> and goes to the even \<open>0.938\<close>, \<open>1 - 0.4375 = 0.5625\<close> goes to the
  even \<open>0.562\<close>; the scores are the floats nearest to these two decimals.
\<close>

theorem relevance_scores_witness:
  "map relevance_score
     (snd (search_tickets
        (answering sample_env
           (Inr \<lparr>ids = [[''A'', ''B'']], documents = [[''first'', ''second'']],
                 metadatas = [[[], []]],
                 distances = [[Finite (1 / 16), Finite (7 / 16)]]\<rparr>))
        ''q'' 5 None))
   = [Finite (4224376450473525 / 4503599627370496),
      Finite (2531022990582219 / 4503599627370496)]
   \<and> \<bar>4224376450473525 / 4503599627370496 - (938 / 1000 :: rat)\<bar> \<le> 1 / 2 ^ 54
   \<and> \<bar>2531022990582219 / 4503599627370496 - (562 / 1000 :: rat)\<bar> \<le> 1 / 2 ^ 54"
proof -
  let ?ds = "[Finite (1 / 16), Finite (7 / 16)]"
  let ?r = "\<lparr>ids = [[''A'', ''B'']], documents = [[''first'', ''second'']],
             metadatas = [[[], []]], distances = [?ds]\<rparr>"
  let ?e = "answering sample_env (Inr ?r)"
  let ?rs = "snd (search_tickets ?e ''q'' 5 None)"
  have q: "collection_query ?e (search_query_args ''q'' 5 None) = Inr ?r"
    by (simp add: answering_def)
  have sh: "ids ?r = [[''A'', ''B'']]" "documents ?r = [[''first'', ''second'']]"
    "metadatas ?r = [[[], []]]" "distances ?r = [?ds]"
    by simp_all
  have ln: "length [''first'', ''second''] = length [''A'', ''B'']"
    "length ([[], []] :: pydict list) = length [''A'', ''B'']"
    "length ?ds = length [''A'', ''B'']"
    by simp_all
  note T = relevance_scores [OF q sh ln]
  have l: "length ?rs = 2" using T [THEN conjunct1] by simp
  have a: "i < 2 \<Longrightarrow>
             py_round (float_sub (Finite 1) (?ds ! i)) 3 = Inr (relevance_score (?rs ! i))" for i
    using T [THEN conjunct2, THEN conjunct1] by simp
  have s0: "relevance_score (?rs ! 0) = Finite (4224376450473525 / 4503599627370496)"
    using a [of 0] relevance_sixteenth by simp
  have s1: "relevance_score (?rs ! Suc 0) = Finite (2531022990582219 / 4503599627370496)"
    using a [of "Suc 0"] relevance_seven_sixteenths by simp
  have "map relevance_score ?rs = map relevance_score [?rs ! 0, ?rs ! Suc 0]"
    using list_of_length_two [OF l] by simp
  then have "map relevance_score ?rs =
               [Finite (4224376450473525 / 4503599627370496),
                Finite (2531022990582219 / 4503599627370496)]"
    by (simp add: s0 s1)
  then show ?thesis by simp
qed

lemma relevance_quarter_simp: "py_round (to_double (3 / 4)) 3 = Inr (Finite (3 / 4))"
  using relevance_quarter by simp

section \<open>Round trip through the search tool\<close>

text \<open>
  C1. After the ticket \<open>{"key": "T-1", "summary": "X", "issue_type": "Bug"}\<close> is added,
  a search for \<open>X\<close> with limit 5 that returns this record gives a result whose
  \<open>ticket_id\<close> is \<open>T-1\<close> and whose formatted summary is \<open>X\<close>. The code does not do
  this: the first line of the stored document is the line \<open>Ticket: T-1\<close>, so the
  summary of the result is \<open>T-1\<close>, the key once more.
\<close>

theorem search_summary_is_ticket_key:
  "fst (add_ticket sample_env [(''key'', JStr ''T-1''), (''summary'', JStr ''X''), (''issue_type'', JStr ''Bug'')]) =
     [CollectionAdd
        \<lparr>add_documents = [''Ticket: T-1'' @ [nl] @ ''Type: Bug'' @ [nl] @ ''Priority: '' @ [nl]
                           @ ''Status: '' @ [nl] @ ''Summary: X'' @ [nl] @ ''Description:''],
         add_metadatas = [[(''key'', JStr ''T-1''), (''issue_type'', JStr ''Bug''),
                           (''indexed_at'', JStr ''2024-01-15T10:30:00.000000'')]],
         add_ids = [JStr ''T-1'']\<rparr>,
      LogInfo ''Added ticket T-1 to knowledge base'']
  \<and> dict_get (snd (search_jira_tickets
        (answering sample_env (Inr (stored_row sample_env [(''key'', JStr ''T-1''), (''summary'', JStr ''X''), (''issue_type'', JStr ''Bug'')] ''T-1'' (Finite (1 / 4))))) ''X'' 5))
        ''tickets'' JNull =
      JList [JObj [(''ticket_id'', JStr ''T-1''),
                   (''relevance_score'', JFloat (Finite (3 / 4))),
                   (''summary'', JStr ''T-1''),
                   (''type'', JStr ''Bug''),
                   (''priority'', JStr ''Unknown''),
                   (''status'', JStr ''Unknown''),
                   (''assignee'', JStr ''Unassigned'')]]"
proof
  let ?t = "[(''key'', JStr ''T-1''), (''summary'', JStr ''X''), (''issue_type'', JStr ''Bug'')]"
  let ?doc = "''Ticket: T-1'' @ [nl] @ ''Type: Bug'' @ [nl] @ ''Priority: '' @ [nl]
               @ ''Status: '' @ [nl] @ ''Summary: X'' @ [nl] @ ''Description:''"
  let ?meta = "[(''key'', JStr ''T-1''), (''issue_type'', JStr ''Bug''),
                (''indexed_at'', JStr ''2024-01-15T10:30:00.000000'')]"
  have doc: "create_searchable_document sample_env ?t = ?doc"
    by code_simp
  have meta: "extract_metadata sample_env ?t = ?meta"
    by code_simp
  have store: "collection_add sample_env = (\<lambda>a. None)"
    by (simp add: sample_env_def)
  show "fst (add_ticket sample_env ?t) =
     [CollectionAdd \<lparr>add_documents = [?doc], add_metadatas = [?meta], add_ids = [JStr ''T-1'']\<rparr>,
      LogInfo ''Added ticket T-1 to knowledge base'']"
    by (simp add: add_ticket_def doc meta store dict_get_def py_str_def Let_def)
  have fmt: "ticket_info_dict (format_ticket
               \<lparr>ticket_id = ''T-1'', content = ?doc, metadata = ?meta,
                relevance_score = s\<rparr>) =
             JObj [(''ticket_id'', JStr ''T-1''),
                   (''relevance_score'', JFloat s),
                   (''summary'', JStr ''T-1''),
                   (''type'', JStr ''Bug''),
                   (''priority'', JStr ''Unknown''),
                   (''status'', JStr ''Unknown''),
                   (''assignee'', JStr ''Unassigned'')]" for s
    by code_simp
  have st: "search_tickets (answering sample_env (Inr (stored_row sample_env ?t ''T-1'' (Finite (1 / 4))))) ''X'' 5 None
         = ([CollectionQuery \<lparr>query_texts = [''X''], n_results = 5, q_where = []\<rparr>],
            [\<lparr>ticket_id = ''T-1'', content = ?doc, metadata = ?meta,
                relevance_score = Finite (3 / 4)\<rparr>])"
    by (simp add: search_tickets_def search_query_args_def answering_def stored_row_def doc meta
        and_then_def py_index_def format_result_def relevance_quarter_simp)
  show "dict_get (snd (search_jira_tickets
        (answering sample_env (Inr (stored_row sample_env ?t ''T-1'' (Finite (1 / 4))))) ''X'' 5))
        ''tickets'' JNull =
      JList [JObj [(''ticket_id'', JStr ''T-1''),
                   (''relevance_score'', JFloat (Finite (3 / 4))),
                   (''summary'', JStr ''T-1''),
                   (''type'', JStr ''Bug''),
                   (''priority'', JStr ''Unknown''),
                   (''status'', JStr ''Unknown''),
                   (''assignee'', JStr ''Unassigned'')]]"
    using fmt [of "Finite (3 / 4)"] by (simp add: search_jira_tickets_def st dict_get_def)
qed

section \<open>The lines of a document\<close>

subsection \<open>Stripping\<close>

lemma lead_len_cong:
  assumes "\<And>w. w \<in> set ws \<Longrightarrow> prefix w s = prefix w s'"
  shows "lead_len ws s = lead_len ws s'"
proof -
  have "find (\<lambda>w. prefix w s) ws = find (\<lambda>w. prefix w s') ws"
    using assms by (intro find_cong) auto
  then show ?thesis by (simp add: lead_len_def)
qed

lemma lead_len_le:
  assumes "\<And>w. w \<in> set ws \<Longrightarrow> prefix w s \<Longrightarrow> length w \<le> k"
  shows "lead_len ws s \<le> k"
  using assms by (auto simp: lead_len_def find_Some_iff split: option.splits)

lemma prefix_before_foreign:
  assumes "c \<notin> set w"
  shows "prefix w (u @ c # v) \<longleftrightarrow> prefix w u"
proof
  assume p: "prefix w (u @ c # v)"
  show "prefix w u"
  proof (cases "length w \<le> length u")
    case True
    then show ?thesis using p by (metis prefix_length_prefix prefixI)
  next
    case False
    from p obtain r where r: "u @ c # v = w @ r" by (auto simp: prefix_def)
    from False have "length u < length w" by simp
    then have "w ! length u = (u @ c # v) ! length u"
      by (simp add: r nth_append)
    then have "w ! length u = c" by simp
    with \<open>length u < length w\<close> assms show ?thesis by (metis nth_mem)
  qed
next
  assume "prefix w u"
  then show "prefix w (u @ c # v)" by (rule prefix_prefix)
qed

lemma strip_leading_foreign:
  assumes "\<And>w. w \<in> set ws \<Longrightarrow> c \<notin> set w"
  shows "strip_leading ws (u @ c # v) = strip_leading ws (u @ [c]) @ v"
proof (induction "length u" arbitrary: u rule: less_induct)
  case less
  have pre: "prefix w (u @ c # v) = prefix w u" "prefix w (u @ [c]) = prefix w u"
    if "w \<in> set ws" for w
    using prefix_before_foreign [OF assms [OF that]] by blast+
  have eq: "lead_len ws (u @ c # v) = lead_len ws (u @ [c])"
    by (rule lead_len_cong) (simp only: pre)
  have le: "lead_len ws (u @ [c]) \<le> length u"
  proof (rule lead_len_le)
    fix w assume "w \<in> set ws" "prefix w (u @ [c])"
    then have "prefix w u" by (simp only: pre)
    then show "length w \<le> length u" by (rule prefix_length_le)
  qed
  show ?case
  proof (cases "lead_len ws (u @ [c]) = 0")
    case True
    then show ?thesis using eq by (simp add: strip_leading.simps [of ws "u @ c # v"] strip_leading.simps [of ws "u @ [c]"])
  next
    case False
    define n where "n = lead_len ws (u @ [c])"
    have n: "0 < n" "n \<le> length u" using False le by (simp_all add: n_def)
    have "strip_leading ws (u @ c # v) = strip_leading ws (drop n u @ c # v)"
      using n eq by (subst strip_leading.simps) (simp add: n_def [symmetric])
    also have "\<dots> = strip_leading ws (drop n u @ [c]) @ v"
      using n by (intro less) simp
    also have "strip_leading ws (drop n u @ [c]) = strip_leading ws (u @ [c])"
      using n by (subst (2) strip_leading.simps) (simp add: n_def [symmetric])
    finally show ?thesis .
  qed
qed

lemma strip_leading_drop: "\<exists>n. strip_leading ws s = drop n s"
proof (induction ws s rule: strip_leading.induct)
  case (1 ws s)
  show ?case
  proof (cases "lead_len ws s = 0")
    case True
    then have "strip_leading ws s = drop 0 s" by (simp add: strip_leading.simps [of ws s])
    then show ?thesis by blast
  next
    case False
    from 1 [OF False] obtain n where "strip_leading ws (drop (lead_len ws s) s) = drop n (drop (lead_len ws s) s)"
      by blast
    then have "strip_leading ws s = drop (n + lead_len ws s) s"
      using False by (subst strip_leading.simps) (simp add: add.commute)
    then show ?thesis by blast
  qed
qed

lemma set_py_rstrip: "set (py_rstrip s) \<subseteq> set s"
proof -
  obtain n where "strip_leading (map rev whitespace) (rev s) = drop n (rev s)"
    using strip_leading_drop by blast
  then have "py_rstrip s = rev (drop n (rev s))" by (simp add: py_rstrip_def)
  then show ?thesis using set_drop_subset [of n "rev s"] by auto
qed

lemma py_rstrip_append:
  assumes "\<And>w. w \<in> set whitespace \<Longrightarrow> c \<notin> set w"
  shows "py_rstrip (a @ b1 @ c # b2) = a @ py_rstrip (b1 @ c # b2)"
proof -
  have f: "\<And>w. w \<in> set (map rev whitespace) \<Longrightarrow> c \<notin> set w"
    using assms by auto
  have "strip_leading (map rev whitespace) (rev b2 @ c # (rev b1 @ rev a))
          = strip_leading (map rev whitespace) (rev b2 @ [c]) @ rev b1 @ rev a"
    by (rule strip_leading_foreign [OF f])
  moreover have "strip_leading (map rev whitespace) (rev b2 @ c # rev b1)
          = strip_leading (map rev whitespace) (rev b2 @ [c]) @ rev b1"
    by (rule strip_leading_foreign [OF f])
  ultimately show ?thesis by (simp add: py_rstrip_def)
qed

subsection \<open>Splitting into lines\<close>

lemma py_split_single: "c \<notin> set a \<Longrightarrow> py_split c a = [a]"
  by (induction a) auto

lemma py_split_line: "c \<notin> set a \<Longrightarrow> py_split c (a @ c # rest) = a # py_split c rest"
  by (induction a) (auto split: list.splits)

lemma lead_len_T: "lead_len whitespace (CHR ''T'' # s) = 0"
  by (simp add: lead_len_def whitespace_def)

lemma py_lstrip_T: "py_lstrip (CHR ''T'' # s) = CHR ''T'' # s"
  unfolding py_lstrip_def by (subst strip_leading.simps) (simp add: lead_len_T)

lemma colon_no_whitespace: "w \<in> set whitespace \<Longrightarrow> CHR '':'' \<notin> set w"
  by (auto simp: whitespace_def)

lemma strip_leading_idem: "strip_leading ws (strip_leading ws s) = strip_leading ws s"
proof (induction ws s rule: strip_leading.induct)
  case (1 ws s)
  show ?case
  proof (cases "lead_len ws s = 0")
    case True
    have e: "strip_leading ws s = s"
      by (subst strip_leading.simps) (simp add: True)
    show ?thesis by (simp only: e)
  next
    case False
    have e: "strip_leading ws s = strip_leading ws (drop (lead_len ws s) s)"
      by (subst strip_leading.simps) (simp add: False)
    show ?thesis by (simp only: e 1 [OF False])
  qed
qed

lemma py_rstrip_idem: "py_rstrip (py_rstrip s) = py_rstrip s"
  unfolding py_rstrip_def by (simp only: rev_rev_ident strip_leading_idem)

lemma py_rstrip_description:
  "py_rstrip (a @ ''Description: '' @ d) = a @ py_rstrip (''Description: '' @ d)"
proof -
  have "py_rstrip (a @ ''Description'' @ CHR '':'' # (CHR '' '' # d))
        = a @ py_rstrip (''Description'' @ CHR '':'' # (CHR '' '' # d))"
    by (rule py_rstrip_append [OF colon_no_whitespace])
  moreover have "''Description: '' @ d = ''Description'' @ CHR '':'' # (CHR '' '' # d)"
    by simp
  ultimately show ?thesis by (simp only:)
qed

lemma strip_leading_keeps_last:
  assumes "\<And>w. w \<in> set ws \<Longrightarrow> c \<notin> set w"
  shows "\<exists>u'. strip_leading ws (u @ [c]) = u' @ [c]"
proof (induction "length u" arbitrary: u rule: less_induct)
  case less
  have le: "lead_len ws (u @ [c]) \<le> length u"
  proof (rule lead_len_le)
    fix w assume "w \<in> set ws" "prefix w (u @ [c])"
    then have "prefix w u" using prefix_before_foreign [OF assms, of w u "[]"] by simp
    then show "length w \<le> length u" by (rule prefix_length_le)
  qed
  show ?case
  proof (cases "lead_len ws (u @ [c]) = 0")
    case True
    have "strip_leading ws (u @ [c]) = u @ [c]"
      by (subst strip_leading.simps) (simp add: True)
    then show ?thesis by blast
  next
    case False
    define n where "n = lead_len ws (u @ [c])"
    have n: "0 < n" "n \<le> length u" using False le by (simp_all add: n_def)
    have "strip_leading ws (u @ [c]) = strip_leading ws (drop n u @ [c])"
      using n by (subst strip_leading.simps) (simp add: n_def [symmetric])
    moreover have "\<exists>u'. strip_leading ws (drop n u @ [c]) = u' @ [c]"
      using n by (intro less) simp
    ultimately show ?thesis by (simp only:)
  qed
qed

lemma py_rstrip_keeps_first:
  assumes "\<And>w. w \<in> set whitespace \<Longrightarrow> c \<notin> set w"
  shows "\<exists>r. py_rstrip (c # s) = c # r"
proof -
  have "\<And>w. w \<in> set (map rev whitespace) \<Longrightarrow> c \<notin> set w"
    using assms by auto
  from strip_leading_keeps_last [of "map rev whitespace" c "rev s", OF this]
  obtain u' where "strip_leading (map rev whitespace) (rev s @ [c]) = u' @ [c]"
    by blast
  then have "py_rstrip (c # s) = c # rev u'"
    by (simp add: py_rstrip_def)
  then show ?thesis by blast
qed

lemma py_rstrip_description_prefix:
  "prefix ''Description:'' (py_rstrip (''Description: '' @ d))"
proof -
  have "py_rstrip (''Description'' @ [] @ CHR '':'' # (CHR '' '' # d))
        = ''Description'' @ py_rstrip ([] @ CHR '':'' # (CHR '' '' # d))"
    by (rule py_rstrip_append [OF colon_no_whitespace])
  moreover obtain r where "py_rstrip (CHR '':'' # (CHR '' '' # d)) = CHR '':'' # r"
    using py_rstrip_keeps_first [OF colon_no_whitespace] by blast
  moreover have "''Description: '' @ d = ''Description'' @ [] @ CHR '':'' # (CHR '' '' # d)"
    by simp
  ultimately have "py_rstrip (''Description: '' @ d) = ''Description'' @ CHR '':'' # r"
    by (simp only: append_Nil)
  then show ?thesis by simp
qed

text \<open>
  C6, amended. For every ticket whose six rendered values (the key, the type, the
  priority, the status, the summary and the description) contain no newline, the document
  has exactly six lines, in the order Ticket, Type, Priority, Status, Summary,
  Description, each the label followed by the value; an absent field gives the empty
  value, its line stays. The document is trimmed: only the end of the last line can
  lose whitespace, and the last line keeps at least \<open>Description:\<close>.
\<close>

theorem document_six_lines:
  assumes "nl \<notin> set (py_str e (dict_get t ''key'' (JStr [])))"
      and "nl \<notin> set (py_str e (name_or_alias t ''issuetype'' ''issue_type''))"
      and "nl \<notin> set (py_str e (name_or_alias t ''priority'' ''priority''))"
      and "nl \<notin> set (py_str e (name_or_alias t ''status'' ''status''))"
      and "nl \<notin> set (py_str e (dict_get t ''summary'' (JStr [])))"
      and "nl \<notin> set (py_str e (dict_get t ''description'' (JStr [])))"
  shows "py_split nl (create_searchable_document e t) =
           [''Ticket: '' @ py_str e (dict_get t ''key'' (JStr [])),
            ''Type: '' @ py_str e (name_or_alias t ''issuetype'' ''issue_type''),
            ''Priority: '' @ py_str e (name_or_alias t ''priority'' ''priority''),
            ''Status: '' @ py_str e (name_or_alias t ''status'' ''status''),
            ''Summary: '' @ py_str e (dict_get t ''summary'' (JStr [])),
            py_rstrip (''Description: '' @ py_str e (dict_get t ''description'' (JStr [])))]
       \<and> prefix ''Description:''
            (py_rstrip (''Description: '' @ py_str e (dict_get t ''description'' (JStr []))))
       \<and> py_strip (create_searchable_document e t) = create_searchable_document e t"
proof -
  define k where "k = py_str e (dict_get t ''key'' (JStr []))"
  define ty where "ty = py_str e (name_or_alias t ''issuetype'' ''issue_type'')"
  define pr where "pr = py_str e (name_or_alias t ''priority'' ''priority'')"
  define st where "st = py_str e (name_or_alias t ''status'' ''status'')"
  define sm where "sm = py_str e (dict_get t ''summary'' (JStr []))"
  define de where "de = py_str e (dict_get t ''description'' (JStr []))"
  define head where
    "head = ''icket: '' @ k @ [nl] @ ''Type: '' @ ty @ [nl] @ ''Priority: '' @ pr @ [nl]
            @ ''Status: '' @ st @ [nl] @ ''Summary: '' @ sm @ [nl]"
  define last_line where "last_line = py_rstrip (''Description: '' @ de)"
  note free = assms [folded k_def ty_def pr_def st_def sm_def de_def]
  have "create_searchable_document e t =
          py_strip (CHR ''T'' # head @ ''Description: '' @ de)"
    by (simp add: create_searchable_document_def Let_def head_def k_def ty_def pr_def st_def
        sm_def de_def)
  also have "\<dots> = py_rstrip ((CHR ''T'' # head) @ ''Description: '' @ de)"
    by (simp only: py_strip_def py_lstrip_T append_Cons)
  also have "\<dots> = (CHR ''T'' # head) @ last_line"
    by (simp only: py_rstrip_description last_line_def)
  finally have doc: "create_searchable_document e t = CHR ''T'' # head @ last_line"
    by simp
  have nl_last: "nl \<notin> set last_line"
    using set_py_rstrip [of "''Description: '' @ de"] free(6)
    by (auto simp: last_line_def nl_def)
  have l1: "nl \<notin> set (''Ticket: '' @ k)" and l2: "nl \<notin> set (''Type: '' @ ty)"
    and l3: "nl \<notin> set (''Priority: '' @ pr)" and l4: "nl \<notin> set (''Status: '' @ st)"
    and l5: "nl \<notin> set (''Summary: '' @ sm)"
    using free by (auto simp: nl_def)
  have "CHR ''T'' # head @ last_line =
          (''Ticket: '' @ k) @ nl # (''Type: '' @ ty) @ nl # (''Priority: '' @ pr) @ nl #
          (''Status: '' @ st) @ nl # (''Summary: '' @ sm) @ nl # last_line"
    by (simp add: head_def)
  then have lines: "py_split nl (create_searchable_document e t) =
          [''Ticket: '' @ k, ''Type: '' @ ty, ''Priority: '' @ pr, ''Status: '' @ st,
           ''Summary: '' @ sm, last_line]"
    by (simp only: doc py_split_line [OF l1] py_split_line [OF l2] py_split_line [OF l3]
        py_split_line [OF l4] py_split_line [OF l5] py_split_single [OF nl_last])
  have trimmed: "py_strip (create_searchable_document e t) = create_searchable_document e t"
  proof -
    have r: "py_rstrip ((CHR ''T'' # head) @ ''Description: '' @ de) = (CHR ''T'' # head) @ last_line"
      by (simp only: py_rstrip_description last_line_def)
    have "py_strip (CHR ''T'' # head @ last_line) = py_rstrip ((CHR ''T'' # head) @ last_line)"
      by (simp only: py_strip_def py_lstrip_T append_Cons)
    also have "\<dots> = py_rstrip (py_rstrip ((CHR ''T'' # head) @ ''Description: '' @ de))"
      by (simp only: r)
    also have "\<dots> = py_rstrip ((CHR ''T'' # head) @ ''Description: '' @ de)"
      by (rule py_rstrip_idem)
    also have "\<dots> = (CHR ''T'' # head) @ last_line"
      by (rule r)
    finally show ?thesis by (simp add: doc)
  qed
  show ?thesis
    using lines trimmed py_rstrip_description_prefix [of de]
    by (simp only: k_def ty_def pr_def st_def sm_def de_def last_line_def simp_thms)
qed

text \<open>
  C6. For every ticket whose \<open>summary\<close> and \<open>description\<close> contain no newline, the
  document has exactly six lines. This fails when another value holds a newline: the
  ticket whose key is \<open>A\<close>, a newline and \<open>B\<close> gives seven lines.
\<close>

theorem document_newline_in_key:
  "nl \<notin> set (py_str sample_env
       (dict_get [(''key'', JStr [CHR ''A'', nl, CHR ''B'']), (''summary'', JStr ''S''),
                  (''description'', JStr ''D'')] ''summary'' (JStr [])))
   \<and> nl \<notin> set (py_str sample_env
       (dict_get [(''key'', JStr [CHR ''A'', nl, CHR ''B'']), (''summary'', JStr ''S''),
                  (''description'', JStr ''D'')] ''description'' (JStr [])))
   \<and> py_split nl (create_searchable_document sample_env
         [(''key'', JStr [CHR ''A'', nl, CHR ''B'']), (''summary'', JStr ''S''),
          (''description'', JStr ''D'')])
       = [''Ticket: A'', ''B'', ''Type: '', ''Priority: '', ''Status: '', ''Summary: S'',
          ''Description: D'']
   \<and> length (py_split nl (create_searchable_document sample_env
         [(''key'', JStr [CHR ''A'', nl, CHR ''B'']), (''summary'', JStr ''S''),
          (''description'', JStr ''D'')])) = 7"
  by code_simp

theorem document_six_lines_witness:
  "py_split nl (create_searchable_document sample_env
      [(''key'', JStr ''T-1''), (''summary'', JStr ''X''), (''issue_type'', JStr ''Bug'')])
   = [''Ticket: T-1'', ''Type: Bug'', ''Priority: '', ''Status: '', ''Summary: X'',
      ''Description:'']"
proof -
  let ?t = "[(''key'', JStr ''T-1''), (''summary'', JStr ''X''), (''issue_type'', JStr ''Bug'')]"
  have v: "py_str sample_env (dict_get ?t ''key'' (JStr [])) = ''T-1''"
    "py_str sample_env (name_or_alias ?t ''issuetype'' ''issue_type'') = ''Bug''"
    "py_str sample_env (name_or_alias ?t ''priority'' ''priority'') = []"
    "py_str sample_env (name_or_alias ?t ''status'' ''status'') = []"
    "py_str sample_env (dict_get ?t ''summary'' (JStr [])) = ''X''"
    "py_str sample_env (dict_get ?t ''description'' (JStr [])) = []"
    by (simp_all add: py_str_def dict_get_def name_or_alias_def)
  have r: "py_rstrip ''Description: '' = ''Description:''"
    by code_simp
  have "py_split nl (create_searchable_document sample_env ?t) =
           [''Ticket: '' @ py_str sample_env (dict_get ?t ''key'' (JStr [])),
            ''Type: '' @ py_str sample_env (name_or_alias ?t ''issuetype'' ''issue_type''),
            ''Priority: '' @ py_str sample_env (name_or_alias ?t ''priority'' ''priority''),
            ''Status: '' @ py_str sample_env (name_or_alias ?t ''status'' ''status''),
            ''Summary: '' @ py_str sample_env (dict_get ?t ''summary'' (JStr [])),
            py_rstrip (''Description: '' @ py_str sample_env (dict_get ?t ''description'' (JStr [])))]"
    by (rule document_six_lines [THEN conjunct1]) (simp_all only: v, simp_all add: nl_def)
  then show ?thesis by (simp only: v r append_Nil2) simp
qed

end
